theory Spec2Isabelle
  imports Complex_Main "HOL-Library.Word"
begin

unbundle bit_operations_syntax

section \<open>Strings and numbers of the host language\<close>

text \<open>
  A JavaScript string is a sequence of UTF-16 code units. Literals of the source that are
  plain ASCII are written with \<open>ascii\<close>; other literals are written as code units.
\<close>

type_synonym jschar = "16 word"
type_synonym jsstring = "jschar list"

definition ascii :: "string \<Rightarrow> jsstring" where
  "ascii s = map of_char s"

text \<open>
  The code units that \<^verbatim>\<open>String.prototype.trim\<close>, the regular expression class
  \<^verbatim>\<open>\s\<close> and the number parsers skip: WhiteSpace and LineTerminator of ECMAScript.
\<close>

definition isWhiteSpace :: "jschar \<Rightarrow> bool" where
  "isWhiteSpace c =
     (c = 0x0009 \<or> c = 0x000A \<or> c = 0x000B \<or> c = 0x000C \<or> c = 0x000D \<or> c = 0x0020 \<or>
      c = 0x00A0 \<or> c = 0x1680 \<or> (0x2000 \<le> c \<and> c \<le> 0x200A) \<or> c = 0x2028 \<or>
      c = 0x2029 \<or> c = 0x202F \<or> c = 0x205F \<or> c = 0x3000 \<or> c = 0xFEFF)"

definition trimStart :: "jsstring \<Rightarrow> jsstring" where
  "trimStart s = dropWhile isWhiteSpace s"

definition trimEnd :: "jsstring \<Rightarrow> jsstring" where
  "trimEnd s = rev (dropWhile isWhiteSpace (rev s))"

definition trim :: "jsstring \<Rightarrow> jsstring" where
  "trim s = trimEnd (trimStart s)"

definition isDigit :: "jschar \<Rightarrow> bool" where
  "isDigit c = (0x30 \<le> c \<and> c \<le> 0x39)"

text \<open>\<^verbatim>\<open>[0-9a-f]\<close> under the flag \<^verbatim>\<open>i\<close>: the digits and the letters a to f of either case.\<close>

definition isHexDigit :: "jschar \<Rightarrow> bool" where
  "isHexDigit c = ((0x30 \<le> c \<and> c \<le> 0x39) \<or> (0x61 \<le> c \<and> c \<le> 0x66) \<or> (0x41 \<le> c \<and> c \<le> 0x46))"

definition digitVal :: "jschar \<Rightarrow> nat" where
  "digitVal c = unat c - 48"

definition digitsVal :: "jsstring \<Rightarrow> nat" where
  "digitsVal ds = foldl (\<lambda>a c. 10 * a + digitVal c) 0 ds"

text \<open>
  \<^verbatim>\<open>Number.parseInt(s, 10)\<close>: leading white space is skipped, one sign is read, and the
  longest run of decimal digits is the value; no digit gives NaN, here \<open>None\<close>. The value
  is the exact integer: the rounding of a very long digit string to a double is not
  modelled (it is monotone and leaves the integers the callers clamp to unchanged).
\<close>

definition parseInt10 :: "jsstring \<Rightarrow> int option" where
  "parseInt10 s =
     (let t = trimStart s;
          neg = (t \<noteq> [] \<and> hd t = 0x2D);
          u = (if t \<noteq> [] \<and> (hd t = 0x2B \<or> hd t = 0x2D) then tl t else t);
          z = takeWhile isDigit u
      in if z = [] then None
         else Some (if neg then - int (digitsVal z) else int (digitsVal z)))"

text \<open>
  A number of the host: NaN, the two infinities, or a finite value. Finite values are
  exact rationals; the rounding of binary64 arithmetic is not modelled.
\<close>

datatype jsnum = NaN | NegInf | Fin rat | PosInf

fun negate :: "jsnum \<Rightarrow> jsnum" where
  "negate NaN = NaN"
| "negate NegInf = PosInf"
| "negate (Fin q) = Fin (- q)"
| "negate PosInf = NegInf"

text \<open>The exponent part of a decimal literal: \<^verbatim>\<open>e\<close> or \<^verbatim>\<open>E\<close>, an optional sign, digits.
  Without a digit there is no exponent part and the literal ends before the letter.\<close>

definition exponentPart :: "jsstring \<Rightarrow> int" where
  "exponentPart r =
     (if r \<noteq> [] \<and> (hd r = 0x65 \<or> hd r = 0x45) then
        (let r1 = tl r;
             neg = (r1 \<noteq> [] \<and> hd r1 = 0x2D);
             r2 = (if r1 \<noteq> [] \<and> (hd r1 = 0x2B \<or> hd r1 = 0x2D) then tl r1 else r1);
             ed = takeWhile isDigit r2
         in if ed = [] then 0 else if neg then - int (digitsVal ed) else int (digitsVal ed))
      else 0)"

definition scale10 :: "rat \<Rightarrow> int \<Rightarrow> rat" where
  "scale10 q e = (if 0 \<le> e then q * 10 ^ nat e else q / 10 ^ nat (- e))"

text \<open>The longest prefix that is a StrUnsignedDecimalLiteral, and its value.\<close>

definition unsignedDecimal :: "jsstring \<Rightarrow> jsnum" where
  "unsignedDecimal s =
     (if take 8 s = ascii ''Infinity'' then PosInf
      else
        (let ip = takeWhile isDigit s;
             r1 = dropWhile isDigit s;
             dot = (r1 \<noteq> [] \<and> hd r1 = 0x2E);
             fp = (if dot then takeWhile isDigit (tl r1) else []);
             r2 = (if dot then dropWhile isDigit (tl r1) else r1)
         in if ip = [] \<and> fp = [] then NaN
            else Fin (scale10 (of_nat (digitsVal ip) + of_nat (digitsVal fp) / 10 ^ length fp)
                        (exponentPart r2))))"

definition parseFloat :: "jsstring \<Rightarrow> jsnum" where
  "parseFloat s =
     (let t = trimStart s
      in if t \<noteq> [] \<and> hd t = 0x2D then negate (unsignedDecimal (tl t))
         else if t \<noteq> [] \<and> hd t = 0x2B then unsignedDecimal (tl t)
         else unsignedDecimal t)"

section \<open>Sanitizers\<close>

text \<open>
  \<^verbatim>\<open>clampInt(v, min, max)\<close> and \<^verbatim>\<open>clampFloat(v, min, max)\<close>. Both start with
  \<^verbatim>\<open>String(v)\<close>; the argument here is that string.
\<close>

definition clampInt :: "jsstring \<Rightarrow> int \<Rightarrow> int \<Rightarrow> int" where
  "clampInt v mn mx =
     (case parseInt10 v of
        None \<Rightarrow> mn
      | Some n \<Rightarrow> max mn (min mx n))"

definition clampFloat :: "jsstring \<Rightarrow> rat \<Rightarrow> rat \<Rightarrow> rat" where
  "clampFloat v mn mx =
     (case parseFloat v of
        NaN \<Rightarrow> mn
      | NegInf \<Rightarrow> mn
      | Fin n \<Rightarrow> max mn (min mx n)
      | PosInf \<Rightarrow> max mn mx)"

text \<open>\<^verbatim>\<open>normalizeHex\<close>: the trimmed string must be \<^verbatim>\<open>#\<close> and six hex digits; the
  result is \<^verbatim>\<open>#\<close> and the six digits as they were typed.\<close>

definition normalizeHex :: "jsstring \<Rightarrow> jsstring option" where
  "normalizeHex v =
     (let t = trim v
      in if t \<noteq> [] \<and> hd t = 0x23 \<and> length (tl t) = 6 \<and> list_all isHexDigit (tl t)
         then Some (0x23 # tl t) else None)"

definition hexDigitVal :: "jschar \<Rightarrow> nat" where
  "hexDigitVal c =
     (if 0x30 \<le> c \<and> c \<le> 0x39 then unat c - 48
      else if 0x61 \<le> c \<and> c \<le> 0x66 then unat c - 87
      else unat c - 55)"

definition parseHex :: "jsstring \<Rightarrow> nat" where
  "parseHex ds = foldl (\<lambda>a c. 16 * a + hexDigitVal c) 0 ds"

text \<open>\<^verbatim>\<open>hexToRgb\<close>: the \<^verbatim>\<open>#\<close> is optional; \<open>None\<close> is the source's \<^verbatim>\<open>null\<close>. The three
  channels are cut out of the 32-bit integer with shifts and masks, as in the source.\<close>

definition hexToRgb :: "jsstring \<Rightarrow> (nat \<times> nat \<times> nat) option" where
  "hexToRgb hex =
     (let t = trim hex;
          d = (if t \<noteq> [] \<and> hd t = 0x23 then tl t else t)
      in if length d = 6 \<and> list_all isHexDigit d then
           (let n = (of_nat (parseHex d) :: 32 word)
            in Some (unat (drop_bit 16 n AND 255), unat (drop_bit 8 n AND 255), unat (n AND 255)))
         else None)"

text \<open>\<^verbatim>\<open>normalizeNewlines\<close>: every \<^verbatim>\<open>\r\n\<close> and every remaining \<^verbatim>\<open>\r\<close> becomes \<^verbatim>\<open>\n\<close>.\<close>

fun normalizeNewlines :: "jsstring \<Rightarrow> jsstring" where
  "normalizeNewlines [] = []"
| "normalizeNewlines (c # cs) =
     (if c = 0x0D then
        (case cs of
           [] \<Rightarrow> [0x0A]
         | d # ds \<Rightarrow> if d = 0x0A then 0x0A # normalizeNewlines ds else 0x0A # normalizeNewlines cs)
      else c # normalizeNewlines cs)"

section \<open>The style parameters\<close>

text \<open>
  The \<^verbatim>\<open>State\<close> object. Six fields are numbers or a boolean that every writer
  sanitizes; the other six are declared strings. The record is polymorphic in the type of
  those six: \<open>jsstring State\<close> is the declared shape, which \<^verbatim>\<open>readControlsIntoState\<close>
  and \<^verbatim>\<open>DEFAULT_STATE\<close> have; \<^verbatim>\<open>loadState\<close> copies them from parsed JSON
  unchecked and returns a \<open>jsvalue State\<close>.
\<close>

record 'v State =
  text' :: 'v
  fontFamily :: 'v
  fontWeight :: 'v
  fontSize :: int
  lineHeight :: rat
  textColor :: 'v
  bgColor :: 'v
  bgTransparent :: bool
  bgAlpha :: rat
  offsetX :: int
  offsetY :: int
  align :: 'v
  padding :: int

definition DEFAULT_STATE :: "jsstring State" where
  "DEFAULT_STATE =
     \<lparr> text' = [0x65E9, 0x5B89, 0xFF01, 0x000A] @ ascii ''Hello :)'',
       fontFamily = ascii ''Noto Sans TC'',
       fontWeight = ascii ''400'',
       fontSize = 56,
       lineHeight = 115 / 100,
       textColor = ascii ''#111827'',
       bgColor = ascii ''#ffffff'',
       bgTransparent = True,
       bgAlpha = 1,
       offsetX = 0,
       offsetY = 0,
       align = ascii ''center'',
       padding = 0 \<rparr>"

text \<open>
  What \<^verbatim>\<open>readControlsIntoState\<close> reads: the \<^verbatim>\<open>value\<close> of each form control, a
  string, and the \<^verbatim>\<open>checked\<close> flag of the check box. The controls are named as in
  the source, with a suffix where the name is a field of the state as well.
\<close>

record Controls =
  textInput :: jsstring
  fontSelect :: jsstring
  weightSelect :: jsstring
  sizeRange :: jsstring
  lineRange :: jsstring
  textColorInput :: jsstring
  bgColorInput :: jsstring
  bgTransparentChecked :: bool
  bgAlphaRange :: jsstring
  offXRange :: jsstring
  offYRange :: jsstring
  alignSelect :: jsstring
  padRange :: jsstring

text \<open>
  \<^verbatim>\<open>readControlsIntoState\<close> assigns the thirteen fields of the one state object in
  place. Its writes to the output elements and the best-effort \<^verbatim>\<open>saveState\<close> do not
  reach the state and are left out.
\<close>

definition readControlsIntoState :: "Controls \<Rightarrow> jsstring State \<Rightarrow> jsstring State" where
  "readControlsIntoState c s =
     s\<lparr> text' := normalizeNewlines (textInput c),
        fontFamily := fontSelect c,
        fontWeight := weightSelect c,
        fontSize := clampInt (sizeRange c) 8 128,
        lineHeight := clampFloat (lineRange c) (8 / 10) (18 / 10),
        textColor := (case normalizeHex (textColorInput c) of
                        Some h \<Rightarrow> h | None \<Rightarrow> textColor DEFAULT_STATE),
        bgColor := (case normalizeHex (bgColorInput c) of
                      Some h \<Rightarrow> h | None \<Rightarrow> bgColor DEFAULT_STATE),
        bgTransparent := bgTransparentChecked c,
        bgAlpha := of_int (clampInt (bgAlphaRange c) 0 100) / 100,
        offsetX := clampInt (offXRange c) (- 64) 64,
        offsetY := clampInt (offYRange c) (- 64) 64,
        align := alignSelect c,
        padding := clampInt (padRange c) 0 24 \<rparr>"

text \<open>\<^verbatim>\<open>setColorFromHexInput\<close>: the new values of the hex text field and of the colour
  input. \<^verbatim>\<open>toLowerCase\<close> is applied to a string of \<^verbatim>\<open>#\<close> and hex digits or to the
  fallback; only the ASCII letters are modelled.\<close>

definition toLowerAscii :: "jsstring \<Rightarrow> jsstring" where
  "toLowerAscii s = map (\<lambda>c. if 0x41 \<le> c \<and> c \<le> 0x5A then c + 0x20 else c) s"

definition setColorFromHexInput :: "jsstring \<Rightarrow> jsstring \<Rightarrow> jsstring \<times> jsstring" where
  "setColorFromHexInput hexInputValue fallback =
     (let hex = (case normalizeHex hexInputValue of Some h \<Rightarrow> h | None \<Rightarrow> fallback)
      in (toLowerAscii hex, hex))"

text \<open>The pattern of the data model, \<^verbatim>\<open>#rrggbb\<close> with digits of either case, stated on
  its own: seven code units, the first \<^verbatim>\<open>#\<close>, the others hex digits.\<close>

definition isHashHex6 :: "jsstring \<Rightarrow> bool" where
  "isHashHex6 s = (length s = 7 \<and> take 1 s = [0x23] \<and> list_all isHexDigit (drop 1 s))"

section \<open>Loading the persisted state\<close>

text \<open>
  A value produced by \<^verbatim>\<open>JSON.parse\<close>. A number is represented by the string that
  \<^verbatim>\<open>String\<close> returns for it (\<^verbatim>\<open>56\<close>, \<^verbatim>\<open>1.15\<close>, \<^verbatim>\<open>1e+21\<close>, \<^verbatim>\<open>Infinity\<close>), which
  is all that \<^verbatim>\<open>loadState\<close> reads of a number. An object is the list of its own
  properties, each key once.
\<close>

datatype jsvalue =
    JNull
  | JBool bool
  | JNum jsstring
  | JStr jsstring
  | JArr "jsvalue list"
  | JObj "(jsstring \<times> jsvalue) list"

text \<open>
  \<^verbatim>\<open>String(v)\<close>; \<open>None\<close> is the TypeError thrown for an object that has an own
  property \<^verbatim>\<open>toString\<close> (parsed JSON holds no function, so the property is not callable,
  and the inherited \<^verbatim>\<open>valueOf\<close> returns the object). An array is joined with commas,
  \<^verbatim>\<open>null\<close> elements giving the empty string.
\<close>

fun toStr :: "jsvalue \<Rightarrow> jsstring option"
  and joinStr :: "jsvalue list \<Rightarrow> jsstring option"
  and elemStr :: "jsvalue \<Rightarrow> jsstring option" where
  "toStr JNull = Some (ascii ''null'')"
| "toStr (JBool b) = Some (if b then ascii ''true'' else ascii ''false'')"
| "toStr (JNum n) = Some n"
| "toStr (JStr s) = Some s"
| "toStr (JArr xs) = joinStr xs"
| "toStr (JObj kvs) =
     (if ascii ''toString'' \<in> set (map fst kvs) then None else Some (ascii ''[object Object]''))"
| "joinStr [] = Some []"
| "joinStr [x] = elemStr x"
| "joinStr (x # y # ys) =
     (case elemStr x of
        None \<Rightarrow> None
      | Some a \<Rightarrow> (case joinStr (y # ys) of None \<Rightarrow> None | Some b \<Rightarrow> Some (a @ 0x2C # b)))"
| "elemStr JNull = Some []"
| "elemStr (JBool b) = toStr (JBool b)"
| "elemStr (JNum n) = toStr (JNum n)"
| "elemStr (JStr s) = toStr (JStr s)"
| "elemStr (JArr xs) = toStr (JArr xs)"
| "elemStr (JObj kvs) = toStr (JObj kvs)"

text \<open>\<^verbatim>\<open>Boolean(v)\<close>: the truthiness of a value.\<close>

fun toBoolean :: "jsvalue \<Rightarrow> bool" where
  "toBoolean JNull = False"
| "toBoolean (JBool b) = b"
| "toBoolean (JNum n) = (n \<noteq> ascii ''0'' \<and> n \<noteq> ascii ''NaN'')"
| "toBoolean (JStr s) = (s \<noteq> [])"
| "toBoolean (JArr xs) = True"
| "toBoolean (JObj kvs) = True"

text \<open>
  \<^verbatim>\<open>parsed.key\<close> for the keys of the state: the own property of an object. A number, a
  boolean, a string or an array has no property of such a name (\<open>None\<close> is
  \<^verbatim>\<open>undefined\<close>), and reading a property of \<^verbatim>\<open>null\<close> throws, which \<^verbatim>\<open>loadState\<close>
  tests first.
\<close>

fun getProp :: "jsvalue \<Rightarrow> jsstring \<Rightarrow> jsvalue option" where
  "getProp (JObj kvs) k = map_of kvs k"
| "getProp v k = None"

text \<open>\<^verbatim>\<open>String(parsed.key ?? d)\<close>, where \<open>d\<close> is the string of the default number.\<close>

definition strOrDefault :: "jsvalue \<Rightarrow> jsstring \<Rightarrow> jsstring \<Rightarrow> jsstring option" where
  "strOrDefault parsed k d =
     (case getProp parsed k of
        None \<Rightarrow> Some d
      | Some JNull \<Rightarrow> Some d
      | Some v \<Rightarrow> toStr v)"

text \<open>The field that the spread \<^verbatim>\<open>{...DEFAULT_STATE, ...parsed}\<close> leaves under a key:
  the own property of \<^verbatim>\<open>parsed\<close> when there is one, whatever its value.\<close>

definition spreadField :: "jsvalue \<Rightarrow> jsstring \<Rightarrow> jsstring \<Rightarrow> jsvalue" where
  "spreadField parsed k d = (case getProp parsed k of None \<Rightarrow> JStr d | Some v \<Rightarrow> v)"

definition asValues :: "jsstring State \<Rightarrow> jsvalue State" where
  "asValues s =
     \<lparr> text' = JStr (text' s), fontFamily = JStr (fontFamily s), fontWeight = JStr (fontWeight s),
       fontSize = fontSize s, lineHeight = lineHeight s,
       textColor = JStr (textColor s), bgColor = JStr (bgColor s),
       bgTransparent = bgTransparent s, bgAlpha = bgAlpha s,
       offsetX = offsetX s, offsetY = offsetY s, align = JStr (align s), padding = padding s \<rparr>"

text \<open>
  \<^verbatim>\<open>loadState\<close>. The argument is what \<^verbatim>\<open>JSON.parse(raw)\<close> returns; \<open>None\<close> stands for
  the three ways to the defaults before that: \<^verbatim>\<open>getItem\<close> throws, \<^verbatim>\<open>raw\<close> is missing or
  empty, or \<^verbatim>\<open>JSON.parse\<close> throws. The \<^verbatim>\<open>try\<close> block also ends in the defaults when
  \<^verbatim>\<open>parsed\<close> is \<^verbatim>\<open>null\<close> or a \<^verbatim>\<open>String\<close> conversion throws. Own properties of
  \<^verbatim>\<open>parsed\<close> under other keys are copied as well and never read; the record has no
  place for them.
\<close>

definition loadState :: "jsvalue option \<Rightarrow> jsvalue State" where
  "loadState raw =
     (case raw of
        None \<Rightarrow> asValues DEFAULT_STATE
      | Some parsed \<Rightarrow>
          if parsed = JNull then asValues DEFAULT_STATE
          else
          (case (strOrDefault parsed (ascii ''fontSize'') (ascii ''56''),
                 strOrDefault parsed (ascii ''lineHeight'') (ascii ''1.15''),
                 strOrDefault parsed (ascii ''bgAlpha'') (ascii ''1''),
                 strOrDefault parsed (ascii ''offsetX'') (ascii ''0''),
                 strOrDefault parsed (ascii ''offsetY'') (ascii ''0''),
                 strOrDefault parsed (ascii ''padding'') (ascii ''0'')) of
             (Some fs, Some lh, Some ba, Some ox, Some oy, Some pd) \<Rightarrow>
               \<lparr> text' = spreadField parsed (ascii ''text'') (text' DEFAULT_STATE),
                 fontFamily = spreadField parsed (ascii ''fontFamily'') (fontFamily DEFAULT_STATE),
                 fontWeight = spreadField parsed (ascii ''fontWeight'') (fontWeight DEFAULT_STATE),
                 fontSize = clampInt fs 8 128,
                 lineHeight = clampFloat lh (8 / 10) (18 / 10),
                 textColor = spreadField parsed (ascii ''textColor'') (textColor DEFAULT_STATE),
                 bgColor = spreadField parsed (ascii ''bgColor'') (bgColor DEFAULT_STATE),
                 bgTransparent =
                   (case getProp parsed (ascii ''bgTransparent'') of
                      None \<Rightarrow> bgTransparent DEFAULT_STATE
                    | Some JNull \<Rightarrow> bgTransparent DEFAULT_STATE
                    | Some v \<Rightarrow> toBoolean v),
                 bgAlpha = clampFloat ba 0 1,
                 offsetX = clampInt ox (- 64) 64,
                 offsetY = clampInt oy (- 64) 64,
                 align = spreadField parsed (ascii ''align'') (align DEFAULT_STATE),
                 padding = clampInt pd 0 24 \<rparr>
           | _ \<Rightarrow> asValues DEFAULT_STATE))"

text \<open>The six strings that \<^verbatim>\<open>loadState\<close> hands to the clamps, in the order in
  which it converts them: \<^verbatim>\<open>String(parsed.key ?? d)\<close> for each numeric key, \<open>None\<close>
  where the conversion throws.\<close>

definition numericStrings ::
  "jsvalue \<Rightarrow> jsstring option \<times> jsstring option \<times> jsstring option \<times> jsstring option \<times>
     jsstring option \<times> jsstring option" where
  "numericStrings parsed =
     (strOrDefault parsed (ascii ''fontSize'') (ascii ''56''),
      strOrDefault parsed (ascii ''lineHeight'') (ascii ''1.15''),
      strOrDefault parsed (ascii ''bgAlpha'') (ascii ''1''),
      strOrDefault parsed (ascii ''offsetX'') (ascii ''0''),
      strOrDefault parsed (ascii ''offsetY'') (ascii ''0''),
      strOrDefault parsed (ascii ''padding'') (ascii ''0''))"

text \<open>The declared domains of the three fields that \<^verbatim>\<open>loadState\<close> copies unchecked and
  that have one: a colour is a string of the pattern \<^verbatim>\<open>#rrggbb\<close>, the alignment is one
  of three strings.\<close>

fun isColorValue :: "jsvalue \<Rightarrow> bool" where
  "isColorValue (JStr s) = isHashHex6 s"
| "isColorValue v = False"

fun isAlignValue :: "jsvalue \<Rightarrow> bool" where
  "isAlignValue (JStr s) = (s = ascii ''left'' \<or> s = ascii ''center'' \<or> s = ascii ''right'')"
| "isAlignValue v = False"

section \<open>The export file name\<close>

text \<open>\<^verbatim>\<open>s.split("\n")\<close>: the pieces between the line feeds, one more than there are
  line feeds.\<close>

fun splitLines :: "jsstring \<Rightarrow> jsstring list" where
  "splitLines [] = [[]]"
| "splitLines (c # cs) =
     (if c = 0x0A then [] # splitLines cs
      else (case splitLines cs of
              [] \<Rightarrow> [[c]]
            | l # ls \<Rightarrow> (c # l) # ls))"

text \<open>\<^verbatim>\<open>replace(/\s+/g, "-")\<close>: every maximal run of white space becomes one hyphen.\<close>

function replaceSpaces :: "jsstring \<Rightarrow> jsstring" where
  "replaceSpaces [] = []"
| "replaceSpaces (c # cs) =
     (if isWhiteSpace c then 0x2D # replaceSpaces (dropWhile isWhiteSpace cs)
      else c # replaceSpaces cs)"
  by pat_completeness auto
termination
  by (relation "measure length") (auto simp: length_dropWhile_le less_Suc_eq_le)

text \<open>
  The class \<^verbatim>\<open>[^a-z0-9_\-\u00A0-\uFFFF]\<close> under the flag \<^verbatim>\<open>i\<close> names what is removed;
  \<open>keptChar\<close> is its complement: the ASCII letters of either case, the digits, the
  underscore, the hyphen, and every code unit from U+00A0 on.
\<close>

definition keptChar :: "jschar \<Rightarrow> bool" where
  "keptChar c =
     ((0x61 \<le> c \<and> c \<le> 0x7A) \<or> (0x41 \<le> c \<and> c \<le> 0x5A) \<or> (0x30 \<le> c \<and> c \<le> 0x39) \<or>
      c = 0x5F \<or> c = 0x2D \<or> 0x00A0 \<le> c)"

text \<open>\<^verbatim>\<open>replace(/-+/g, "-")\<close>: every run of hyphens becomes one hyphen.\<close>

function collapseHyphens :: "jsstring \<Rightarrow> jsstring" where
  "collapseHyphens [] = []"
| "collapseHyphens (c # cs) =
     (if c = 0x2D then 0x2D # collapseHyphens (dropWhile (\<lambda>d. d = 0x2D) cs)
      else c # collapseHyphens cs)"
  by pat_completeness auto
termination
  by (relation "measure length") (auto simp: length_dropWhile_le less_Suc_eq_le)

text \<open>\<^verbatim>\<open>replace(/^-|-$/g, "")\<close>: a hyphen at the start is removed, and a hyphen at the
  end of what follows it.\<close>

definition stripEdgeHyphens :: "jsstring \<Rightarrow> jsstring" where
  "stripEdgeHyphens s =
     (let t = (if s \<noteq> [] \<and> hd s = 0x2D then tl s else s)
      in if t \<noteq> [] \<and> last t = 0x2D then butlast t else t)"

text \<open>The constant \<^verbatim>\<open>first\<close> of \<^verbatim>\<open>safeFileNameFromText\<close>: the first line, trimmed. The
  list that \<^verbatim>\<open>split\<close> returns is never empty.\<close>

definition firstLine :: "jsstring \<Rightarrow> jsstring" where
  "firstLine t = trim (hd (splitLines (normalizeNewlines t)))"

definition safeFileNameFromText :: "jsstring \<Rightarrow> jsstring" where
  "safeFileNameFromText t =
     (let first = firstLine t
      in if first = [] then ascii ''slack-emoji.png''
         else
           (let base0 = filter keptChar (replaceSpaces first);
                base1 = take 32 (stripEdgeHyphens (collapseHyphens base0));
                base = (if base1 = [] then ascii ''slack-emoji'' else base1)
            in base @ ascii ''.png''))"

text \<open>A string in which no two hyphens are adjacent.\<close>

fun noHyphenRun :: "jsstring \<Rightarrow> bool" where
  "noHyphenRun (a # b # cs) = (\<not> (a = 0x2D \<and> b = 0x2D) \<and> noHyphenRun (b # cs))"
| "noHyphenRun cs = True"

text \<open>
  The file name told by its words, to compare \<^verbatim>\<open>safeFileNameFromText\<close> with. White
  space and the hyphen separate the words of a line. A word unit is an ASCII letter or
  digit, the underscore, or a code unit from U+00A0 on that is not white space. Every
  other code unit is deleted, so that the
  units on either side of it run together. \<open>splitWords\<close> gives the pieces between the
  separators, the empty ones included, and \<open>fileWords\<close> the pieces that are not empty.
\<close>

definition isSeparator :: "jschar \<Rightarrow> bool" where
  "isSeparator c = (isWhiteSpace c \<or> c = 0x2D)"

definition isWordUnit :: "jschar \<Rightarrow> bool" where
  "isWordUnit c =
     ((0x61 \<le> c \<and> c \<le> 0x7A) \<or> (0x41 \<le> c \<and> c \<le> 0x5A) \<or> (0x30 \<le> c \<and> c \<le> 0x39) \<or>
      c = 0x5F \<or> (0x00A0 \<le> c \<and> \<not> isWhiteSpace c))"

fun splitWords :: "jsstring \<Rightarrow> jsstring list" where
  "splitWords [] = [[]]"
| "splitWords (c # cs) =
     (if isSeparator c then [] # splitWords cs
      else if isWordUnit c then
        (case splitWords cs of
           [] \<Rightarrow> [[c]]
         | w # ws \<Rightarrow> (c # w) # ws)
      else splitWords cs)"

definition fileWords :: "jsstring \<Rightarrow> jsstring list" where
  "fileWords s = filter (\<lambda>w. w \<noteq> []) (splitWords s)"

text \<open>The words joined by single hyphens.\<close>

fun joinHyphen :: "jsstring list \<Rightarrow> jsstring" where
  "joinHyphen [] = []"
| "joinHyphen [w] = w"
| "joinHyphen (w # v # ws) = w @ 0x2D # joinHyphen (v # ws)"

text \<open>The name made of the words of the first line: joined, cut to the first 32 code
  units, \<^verbatim>\<open>slack-emoji\<close> when nothing is left, and the extension.\<close>

definition fileNameFromWords :: "jsstring \<Rightarrow> jsstring" where
  "fileNameFromWords t =
     (let base = take 32 (joinHyphen (fileWords (firstLine t)))
      in (if base = [] then ascii ''slack-emoji'' else base) @ ascii ''.png'')"

text \<open>The pieces of a string between its hyphens.\<close>

fun splitHyphens :: "jsstring \<Rightarrow> jsstring list" where
  "splitHyphens [] = [[]]"
| "splitHyphens (c # cs) =
     (if c = 0x2D then [] # splitHyphens cs
      else (case splitHyphens cs of
              [] \<Rightarrow> [[c]]
            | w # ws \<Rightarrow> (c # w) # ws))"

section \<open>The rasterizer\<close>

text \<open>
  \<^verbatim>\<open>renderExportCanvas\<close> draws through the 2D context of the export canvas. Its effect
  is the sequence of calls and property writes it makes on the context, in order. A
  \<^verbatim>\<open>fillStyle\<close> and a \<^verbatim>\<open>font\<close> are kept as the values the source builds the strings
  from.
\<close>

datatype fillStyle =
    Rgba nat nat nat rat
  | Css jsstring

datatype canvasOp =
    ClearRect rat rat rat rat
  | SetFillStyle fillStyle
  | FillRect rat rat rat rat
  | Save
  | SetTextRendering jsstring
  | SetImageSmoothingEnabled bool
  | SetTextBaseline jsstring
  | SetTextAlign jsstring
  | SetFont jsstring int jsstring
  | BeginPath
  | Rect rat rat rat rat
  | Clip
  | FillText jsstring rat rat
  | Restore

definition EXPORT_SIZE :: rat where
  "EXPORT_SIZE = 128"

text \<open>The family stack of the font shorthand; 0x22 is the double quote.\<close>

definition fontStack :: "jsstring \<Rightarrow> jsstring" where
  "fontStack family =
     (if family = ascii ''system-ui'' then
        ascii ''system-ui, -apple-system, Segoe UI, Roboto, Helvetica, Arial, '' @
        [0x22] @ ascii ''Noto Sans TC'' @ [0x22] @ ascii '', '' @
        [0x22] @ ascii ''Noto Sans'' @ [0x22] @ ascii '', sans-serif''
      else
        [0x22] @ family @ [0x22] @ ascii '', '' @
        [0x22] @ ascii ''Noto Sans TC'' @ [0x22] @ ascii '', '' @
        [0x22] @ ascii ''Noto Sans'' @ [0x22] @ ascii '', system-ui, sans-serif'')"

text \<open>The loop over the lines, from index \<open>i\<close> on: an empty line is skipped and keeps
  its slot.\<close>

fun drawLines :: "rat \<Rightarrow> rat \<Rightarrow> rat \<Rightarrow> nat \<Rightarrow> jsstring list \<Rightarrow> canvasOp list" where
  "drawLines x startY lineHeightPx i [] = []"
| "drawLines x startY lineHeightPx i (t # ts) =
     (if t = [] then [] else [FillText t x (startY + of_nat i * lineHeightPx)])
     @ drawLines x startY lineHeightPx (Suc i) ts"

definition background :: "jsstring State \<Rightarrow> canvasOp list" where
  "background s =
     (if \<not> bgTransparent s then
        (case hexToRgb (bgColor s) of
           Some (r, g, b) \<Rightarrow>
             [SetFillStyle (Rgba r g b (bgAlpha s)), FillRect 0 0 EXPORT_SIZE EXPORT_SIZE]
         | None \<Rightarrow> [])
      else [])"

text \<open>The horizontal anchor \<^verbatim>\<open>x\<close> of the text, by the alignment.\<close>

definition textX :: "jsstring State \<Rightarrow> rat" where
  "textX s =
     (let pad = of_int (padding s);
          safeLeft = pad;
          safeRight = EXPORT_SIZE - pad
      in if align s = ascii ''left'' then safeLeft + of_int (offsetX s)
         else if align s = ascii ''right'' then safeRight + of_int (offsetX s)
         else EXPORT_SIZE / 2 + of_int (offsetX s))"

definition renderExportCanvas :: "jsstring State \<Rightarrow> canvasOp list" where
  "renderExportCanvas s =
     (let lines = splitLines (normalizeNewlines (text' s));
          lineHeightPx = of_int (fontSize s) * lineHeight s;
          pad = of_int (padding s);
          safeLeft = pad;
          safeRight = EXPORT_SIZE - pad;
          safeWidth = safeRight - safeLeft;
          totalHeight = lineHeightPx * of_nat (length lines);
          startY = EXPORT_SIZE / 2 - totalHeight / 2 + lineHeightPx / 2 + of_int (offsetY s);
          x = textX s
      in [ClearRect 0 0 EXPORT_SIZE EXPORT_SIZE]
         @ background s
         @ [Save,
            SetFillStyle (Css (textColor s)),
            SetTextRendering (ascii ''optimizeLegibility''),
            SetImageSmoothingEnabled True,
            SetTextBaseline (ascii ''middle''),
            SetTextAlign (align s),
            SetFont (fontWeight s) (fontSize s) (fontStack (fontFamily s)),
            BeginPath,
            Rect safeLeft safeLeft safeWidth safeWidth,
            Clip]
         @ drawLines x startY lineHeightPx 0 lines
         @ [Restore])"

text \<open>The calls of \<^verbatim>\<open>fillText\<close>, the calls of \<^verbatim>\<open>fillRect\<close> (the background), and
  the calls that put paint on the canvas: the two together.\<close>

fun isFillText :: "canvasOp \<Rightarrow> bool" where
  "isFillText (FillText t x y) = True"
| "isFillText opn = False"

fun isFillRect :: "canvasOp \<Rightarrow> bool" where
  "isFillRect (FillRect x y w h) = True"
| "isFillRect opn = False"

fun paints :: "canvasOp \<Rightarrow> bool" where
  "paints (FillRect x y w h) = True"
| "paints (FillText t x y) = True"
| "paints opn = False"


section \<open>The render scheduler and the font gate\<close>

text \<open>
  The variables the event handlers share, and what the host keeps for them: the callbacks
  registered with \<^verbatim>\<open>requestAnimationFrame\<close> and not yet run (by handle; the only
  callback the source registers is the one of \<^verbatim>\<open>scheduleRender\<close>), the last handle the
  host gave out (handles are positive), whether \<^verbatim>\<open>document.fonts.load\<close> exists, and the
  font loads in flight, each with the token its suspended call captured. Two fields
  record what happened: \<open>renders\<close> has one entry per call of \<^verbatim>\<open>renderAll\<close>, the state
  it drew and the value of \<^verbatim>\<open>rafId\<close> at the call, and \<open>scheduleCalls\<close> counts the calls
  of \<^verbatim>\<open>scheduleRender\<close>.
\<close>

record World =
  state :: "jsstring State"
  rafId :: nat
  frameCallbacks :: "nat list"
  lastHandle :: nat
  fontsAvailable :: bool
  fontLoadToken :: nat
  fontLoads :: "(jsstring \<times> nat) list"
  renders :: "(jsstring State \<times> nat) list"
  scheduleCalls :: nat

definition requestAnimationFrame :: "World \<Rightarrow> nat \<times> World" where
  "requestAnimationFrame w =
     (let h = lastHandle w + 1
      in (h, w\<lparr> lastHandle := h, frameCallbacks := frameCallbacks w @ [h] \<rparr>))"

definition scheduleRender :: "World \<Rightarrow> World" where
  "scheduleRender w =
     (let w1 = w\<lparr> scheduleCalls := scheduleCalls w + 1 \<rparr>
      in if rafId w1 \<noteq> 0 then w1
         else (case requestAnimationFrame w1 of (h, w2) \<Rightarrow> w2\<lparr> rafId := h \<rparr>))"

definition renderAll :: "World \<Rightarrow> World" where
  "renderAll w = w\<lparr> renders := renders w @ [(state w, rafId w)] \<rparr>"

text \<open>The callback of \<^verbatim>\<open>scheduleRender\<close>, and a display frame: the host runs the
  callbacks registered before the frame, each once.\<close>

definition frameCallback :: "World \<Rightarrow> World" where
  "frameCallback w = renderAll (w\<lparr> rafId := 0 \<rparr>)"

definition runFrame :: "World \<Rightarrow> World" where
  "runFrame w = fold (\<lambda>h. frameCallback) (frameCallbacks w) (w\<lparr> frameCallbacks := [] \<rparr>)"

definition onAnyInput :: "Controls \<Rightarrow> World \<Rightarrow> World" where
  "onAnyInput c w = scheduleRender (w\<lparr> state := readControlsIntoState c (state w) \<rparr>)"

text \<open>\<^verbatim>\<open>ensureFontLoaded\<close> up to its \<^verbatim>\<open>await\<close>, and its continuation when the load
  settles. The continuation is the same after a resolved and after a rejected load
  (\<open>ok\<close>): the \<^verbatim>\<open>catch\<close> block is empty. The token is a natural number; the
  source's counter is a double, which counts exactly up to 2 ^ 53, beyond the calls a
  session can make.\<close>

definition ensureFontLoaded :: "jsstring \<Rightarrow> World \<Rightarrow> World" where
  "ensureFontLoaded family w =
     (if \<not> fontsAvailable w then w
      else (let token = fontLoadToken w + 1
            in w\<lparr> fontLoadToken := token, fontLoads := fontLoads w @ [(family, token)] \<rparr>))"

definition fontSettled :: "jsstring \<times> nat \<Rightarrow> bool \<Rightarrow> World \<Rightarrow> World" where
  "fontSettled load ok w =
     (let w1 = w\<lparr> fontLoads := remove1 load (fontLoads w) \<rparr>
      in if snd load = fontLoadToken w1 then scheduleRender w1 else w1)"

definition resetClick :: "World \<Rightarrow> World" where
  "resetClick w =
     scheduleRender (ensureFontLoaded (fontFamily DEFAULT_STATE) (w\<lparr> state := DEFAULT_STATE \<rparr>))"

text \<open>The handlers that end in \<^verbatim>\<open>scheduleRender\<close> apart from a settled font load: an
  input event, the reset button, and a bare call (the resize handler, the fonts being
  ready).\<close>

datatype scheduling = OnAnyInput Controls | ResetClick | ScheduleRender

fun handle :: "scheduling \<Rightarrow> World \<Rightarrow> World" where
  "handle (OnAnyInput c) w = onAnyInput c w"
| "handle ResetClick w = resetClick w"
| "handle ScheduleRender w = scheduleRender w"

text \<open>The two states of the scheduler: no frame callback is registered and \<^verbatim>\<open>rafId\<close> is
  0, or the one callback whose handle \<^verbatim>\<open>rafId\<close> holds is registered.\<close>

definition idle :: "World \<Rightarrow> bool" where
  "idle w = (rafId w = 0 \<and> frameCallbacks w = [])"

definition pending :: "World \<Rightarrow> bool" where
  "pending w = (rafId w \<noteq> 0 \<and> frameCallbacks w = [rafId w])"

section \<open>Sample inputs\<close>

text \<open>Controls whose numeric values do not parse and whose colours are not of the
  pattern, controls with well-formed values, and a state whose colours are not the
  defaults.\<close>

definition junkControls :: Controls where
  "junkControls =
     \<lparr> textInput = ascii ''Hi'', fontSelect = ascii ''Inter'', weightSelect = ascii ''700'',
       sizeRange = ascii ''big'', lineRange = ascii ''tall'',
       textColorInput = ascii ''not-a-color'', bgColorInput = ascii ''#12345'',
       bgTransparentChecked = False, bgAlphaRange = ascii '''', offXRange = ascii ''-'',
       offYRange = ascii ''e5'', alignSelect = ascii ''center'', padRange = ascii ''.5'' \<rparr>"

definition okControls :: Controls where
  "okControls =
     \<lparr> textInput = ascii ''A'' @ [0x0D, 0x0A] @ ascii ''B'', fontSelect = ascii ''Inter'',
       weightSelect = ascii ''700'', sizeRange = ascii ''40'', lineRange = ascii ''1.0'',
       textColorInput = ascii '' #AbCdEf'', bgColorInput = ascii ''#FF0000'',
       bgTransparentChecked = False, bgAlphaRange = ascii ''50'', offXRange = ascii ''3'',
       offYRange = ascii ''-200'', alignSelect = ascii ''left'', padRange = ascii ''4'' \<rparr>"

definition redState :: "jsstring State" where
  "redState = DEFAULT_STATE\<lparr> textColor := ascii ''#ff0000'', bgColor := ascii ''#00ff00'' \<rparr>"

text \<open>States for the rasterizer: the two-line text of the layout example, a transparent
  state with a red opaque background colour, and a state that is not transparent and whose
  background colour is no colour.\<close>

definition abState :: "jsstring State" where
  "abState = DEFAULT_STATE\<lparr> text' := ascii ''A'' @ [0x0A] @ ascii ''B'', fontSize := 40,
                             lineHeight := 1, offsetY := 0 \<rparr>"

definition transparentRed :: "jsstring State" where
  "transparentRed = DEFAULT_STATE\<lparr> text' := ascii ''Hi'', bgTransparent := True,
                                    bgColor := ascii ''#ff0000'', bgAlpha := 1 \<rparr>"


text \<open>Stored preferences: an object whose numbers are not of the domains, with no
  \<open>bgAlpha\<close>, a \<^verbatim>\<open>null\<close> padding and an alignment outside the enum; and an object whose
  padding cannot be converted to a string.\<close>

definition storedOdd :: jsvalue where
  "storedOdd =
     JObj [(ascii ''fontSize'', JNum (ascii ''1e+21'')),
           (ascii ''lineHeight'', JStr (ascii ''1.5px'')),
           (ascii ''offsetX'', JNum (ascii ''5e-7'')),
           (ascii ''offsetY'', JNum (ascii ''-200'')),
           (ascii ''padding'', JNull),
           (ascii ''bgTransparent'', JNum (ascii ''0'')),
           (ascii ''align'', JStr (ascii ''justify''))]"

definition storedThrowing :: jsvalue where
  "storedThrowing =
     JObj [(ascii ''padding'', JObj [(ascii ''toString'', JNull)]),
           (ascii ''align'', JStr (ascii ''justify''))]"

text \<open>Texts for the file name: a first line with white space, a removed character and
  hyphens inside it, and a line of more than 32 code units.\<close>

definition spacedText :: jsstring where
  "spacedText = ascii ''  a'' @ [0x09, 0x20] @ ascii ''b!c--d_ '' @ [0x0D, 0x0A] @ ascii ''second''"

definition longText :: jsstring where
  "longText = ascii ''abcdefghij abcdefghij abcdefghijk lmn''"

text \<open>The world at startup, with the font loading API present.\<close>

definition initWorld :: World where
  "initWorld =
     \<lparr> state = DEFAULT_STATE, rafId = 0, frameCallbacks = [], lastHandle = 0,
       fontsAvailable = True, fontLoadToken = 0, fontLoads = [], renders = [],
       scheduleCalls = 0 \<rparr>"

section \<open>Evaluation\<close>

lemmas js_defs = ascii_def isWhiteSpace_def trimStart_def trimEnd_def trim_def isDigit_def
  isHexDigit_def digitVal_def digitsVal_def parseInt10_def exponentPart_def scale10_def
  unsignedDecimal_def parseFloat_def clampInt_def clampFloat_def normalizeHex_def
  hexDigitVal_def parseHex_def hexToRgb_def isHashHex6_def

section \<open>Sanitizing sets\<close>

lemma clampInt_range: "mn \<le> mx \<Longrightarrow> mn \<le> clampInt v mn mx \<and> clampInt v mn mx \<le> mx"
  by (simp add: clampInt_def split: option.split)

lemma clampFloat_range: "mn \<le> mx \<Longrightarrow> mn \<le> clampFloat v mn mx \<and> clampFloat v mn mx \<le> mx"
  by (simp add: clampFloat_def split: jsnum.split)

lemma alpha_range:
  "0 \<le> (of_int (clampInt v 0 100) :: rat) / 100 \<and> (of_int (clampInt v 0 100) :: rat) / 100 \<le> 1"
proof -
  have "0 \<le> clampInt v 0 100 \<and> clampInt v 0 100 \<le> 100"
    by (rule clampInt_range) simp
  then show ?thesis by simp
qed

text \<open>
  C8. After \<^verbatim>\<open>readControlsIntoState\<close>, whatever the controls hold and whatever the state
  was, \<open>fontSize\<close> is in [8,128], \<open>lineHeight\<close> in [0.8,1.8], \<open>bgAlpha\<close> in [0,1],
  \<open>offsetX\<close> and \<open>offsetY\<close> in [-64,64] and \<open>padding\<close> in [0,24]; a value that does not
  parse as a number (the parser returns NaN) gives the minimum of the range.
\<close>

theorem readControls_ranges:
  "8 \<le> fontSize (readControlsIntoState c s) \<and> fontSize (readControlsIntoState c s) \<le> 128 \<and>
   8 / 10 \<le> lineHeight (readControlsIntoState c s) \<and> lineHeight (readControlsIntoState c s) \<le> 18 / 10 \<and>
   0 \<le> bgAlpha (readControlsIntoState c s) \<and> bgAlpha (readControlsIntoState c s) \<le> 1 \<and>
   - 64 \<le> offsetX (readControlsIntoState c s) \<and> offsetX (readControlsIntoState c s) \<le> 64 \<and>
   - 64 \<le> offsetY (readControlsIntoState c s) \<and> offsetY (readControlsIntoState c s) \<le> 64 \<and>
   0 \<le> padding (readControlsIntoState c s) \<and> padding (readControlsIntoState c s) \<le> 24 \<and>
   (parseInt10 (sizeRange c) = None \<longrightarrow> fontSize (readControlsIntoState c s) = 8) \<and>
   (parseFloat (lineRange c) = NaN \<longrightarrow> lineHeight (readControlsIntoState c s) = 8 / 10) \<and>
   (parseInt10 (bgAlphaRange c) = None \<longrightarrow> bgAlpha (readControlsIntoState c s) = 0) \<and>
   (parseInt10 (offXRange c) = None \<longrightarrow> offsetX (readControlsIntoState c s) = - 64) \<and>
   (parseInt10 (offYRange c) = None \<longrightarrow> offsetY (readControlsIntoState c s) = - 64) \<and>
   (parseInt10 (padRange c) = None \<longrightarrow> padding (readControlsIntoState c s) = 0)"
  using alpha_range [of "bgAlphaRange c"]
    clampInt_range [of 8 128 "sizeRange c"]
    clampFloat_range [of "8 / 10" "18 / 10" "lineRange c"]
    clampInt_range [of "- 64" 64 "offXRange c"]
    clampInt_range [of "- 64" 64 "offYRange c"]
    clampInt_range [of 0 24 "padRange c"]
  by (simp add: readControlsIntoState_def clampInt_def clampFloat_def)

theorem readControls_ranges_witness:
  "parseInt10 (sizeRange junkControls) = None \<and>
   parseFloat (lineRange junkControls) = NaN \<and>
   parseInt10 (bgAlphaRange junkControls) = None \<and>
   parseInt10 (offXRange junkControls) = None \<and>
   parseInt10 (offYRange junkControls) = None \<and>
   parseInt10 (padRange junkControls) = None \<and>
   fontSize (readControlsIntoState junkControls redState) = 8 \<and>
   lineHeight (readControlsIntoState junkControls redState) = 8 / 10 \<and>
   bgAlpha (readControlsIntoState junkControls redState) = 0 \<and>
   offsetX (readControlsIntoState junkControls redState) = - 64 \<and>
   offsetY (readControlsIntoState junkControls redState) = - 64 \<and>
   padding (readControlsIntoState junkControls redState) = 0"
proof -
  have p: "parseInt10 (sizeRange junkControls) = None"
    "parseFloat (lineRange junkControls) = NaN"
    "parseInt10 (bgAlphaRange junkControls) = None"
    "parseInt10 (offXRange junkControls) = None"
    "parseInt10 (offYRange junkControls) = None"
    "parseInt10 (padRange junkControls) = None"
    by (simp_all add: junkControls_def js_defs)
  show ?thesis
    using p readControls_ranges [of junkControls redState] by simp
qed

section \<open>Colours\<close>

lemma normalizeHex_accepts: "isHashHex6 (trim v) \<Longrightarrow> normalizeHex v = Some (trim v)"
  by (cases "trim v") (auto simp: normalizeHex_def isHashHex6_def)


text \<open>
  C2, as amended. A colour value is accepted when, trimmed, it is \<^verbatim>\<open>#\<close> and six hex
  digits of either case; the stored \<open>textColor\<close> (or \<open>bgColor\<close>) is then that trimmed
  string, with its digits in the case they were given.
\<close>

theorem readControls_color_accepted:
  "(isHashHex6 (trim (textColorInput c)) \<longrightarrow>
      textColor (readControlsIntoState c s) = trim (textColorInput c)) \<and>
   (isHashHex6 (trim (bgColorInput c)) \<longrightarrow>
      bgColor (readControlsIntoState c s) = trim (bgColorInput c))"
  by (simp add: readControlsIntoState_def normalizeHex_accepts)

theorem readControls_color_accepted_witness:
  "isHashHex6 (trim (textColorInput okControls)) \<and>
   isHashHex6 (trim (bgColorInput okControls)) \<and>
   textColor (readControlsIntoState okControls redState) = ascii ''#AbCdEf'' \<and>
   bgColor (readControlsIntoState okControls redState) = ascii ''#FF0000''"
proof -
  have h: "isHashHex6 (trim (textColorInput okControls))"
    "isHashHex6 (trim (bgColorInput okControls))"
    by (simp_all add: okControls_def js_defs)
  have t: "trim (textColorInput okControls) = ascii ''#AbCdEf''"
    "trim (bgColorInput okControls) = ascii ''#FF0000''"
    by (simp_all add: okControls_def js_defs)
  show ?thesis
    using h t readControls_color_accepted [of okControls redState] by simp
qed

text \<open>
  The claim C2 as it is stated fails: with \<^verbatim>\<open>ABCDEF\<close> in the colour control the stored
  \<open>textColor\<close> is the default \<^verbatim>\<open>#111827\<close>, not \<^verbatim>\<open>#abcdef\<close>.
\<close>

theorem readControls_color_counterexample:
  "textColor (readControlsIntoState (okControls\<lparr> textColorInput := ascii ''ABCDEF'' \<rparr>) redState)
     = ascii ''#111827'' \<and>
   ascii ''#111827'' \<noteq> ascii ''#abcdef''"
  by (simp add: readControlsIntoState_def okControls_def DEFAULT_STATE_def js_defs)

text \<open>Lower case is given to what is shown in the hex text field, not to what is stored.\<close>

lemma setColorFromHexInput_upper:
  "setColorFromHexInput (ascii ''#ABCDEF'') (textColor DEFAULT_STATE) = (ascii ''#abcdef'', ascii ''#ABCDEF'')"
  by (simp add: setColorFromHexInput_def toLowerAscii_def js_defs)





section \<open>Loading\<close>

text \<open>Either \<^verbatim>\<open>loadState\<close> returns the defaults, or its six numeric fields come out of
  the clamps.\<close>

lemma loadState_cases:
  "loadState raw = asValues DEFAULT_STATE \<or>
   (\<exists>fs lh ba ox oy pd.
      fontSize (loadState raw) = clampInt fs 8 128 \<and>
      lineHeight (loadState raw) = clampFloat lh (8 / 10) (18 / 10) \<and>
      bgAlpha (loadState raw) = clampFloat ba 0 1 \<and>
      offsetX (loadState raw) = clampInt ox (- 64) 64 \<and>
      offsetY (loadState raw) = clampInt oy (- 64) 64 \<and>
      padding (loadState raw) = clampInt pd 0 24)"
  unfolding loadState_def
  by (simp split: option.split) blast

lemma default_ranges:
  "fontSize (asValues DEFAULT_STATE) = 56 \<and> lineHeight (asValues DEFAULT_STATE) = 115 / 100 \<and>
   bgAlpha (asValues DEFAULT_STATE) = 1 \<and> offsetX (asValues DEFAULT_STATE) = 0 \<and>
   offsetY (asValues DEFAULT_STATE) = 0 \<and> padding (asValues DEFAULT_STATE) = 0"
  by (simp add: asValues_def DEFAULT_STATE_def)

lemma loadState_ranges:
  "8 \<le> fontSize (loadState raw) \<and> fontSize (loadState raw) \<le> 128 \<and>
   8 / 10 \<le> lineHeight (loadState raw) \<and> lineHeight (loadState raw) \<le> 18 / 10 \<and>
   0 \<le> bgAlpha (loadState raw) \<and> bgAlpha (loadState raw) \<le> 1 \<and>
   - 64 \<le> offsetX (loadState raw) \<and> offsetX (loadState raw) \<le> 64 \<and>
   - 64 \<le> offsetY (loadState raw) \<and> offsetY (loadState raw) \<le> 64 \<and>
   0 \<le> padding (loadState raw) \<and> padding (loadState raw) \<le> 24"
  using loadState_cases [of raw]
proof
  assume "loadState raw = asValues DEFAULT_STATE"
  then show ?thesis using default_ranges by simp
next
  assume "\<exists>fs lh ba ox oy pd.
    fontSize (loadState raw) = clampInt fs 8 128 \<and>
    lineHeight (loadState raw) = clampFloat lh (8 / 10) (18 / 10) \<and>
    bgAlpha (loadState raw) = clampFloat ba 0 1 \<and>
    offsetX (loadState raw) = clampInt ox (- 64) 64 \<and>
    offsetY (loadState raw) = clampInt oy (- 64) 64 \<and>
    padding (loadState raw) = clampInt pd 0 24"
  then obtain fs lh ba ox oy pd where e:
    "fontSize (loadState raw) = clampInt fs 8 128"
    "lineHeight (loadState raw) = clampFloat lh (8 / 10) (18 / 10)"
    "bgAlpha (loadState raw) = clampFloat ba 0 1"
    "offsetX (loadState raw) = clampInt ox (- 64) 64"
    "offsetY (loadState raw) = clampInt oy (- 64) 64"
    "padding (loadState raw) = clampInt pd 0 24"
    by blast
  show ?thesis
    unfolding e
    using clampInt_range [of 8 128 fs] clampFloat_range [of "8 / 10" "18 / 10" lh]
      clampFloat_range [of 0 1 ba] clampInt_range [of "- 64" 64 ox]
      clampInt_range [of "- 64" 64 oy] clampInt_range [of 0 24 pd]
    by simp
qed

text \<open>Where the six conversions return strings, the state is built from them; where one
  throws, the state is the defaults.\<close>

lemma loadState_converted:
  "parsed \<noteq> JNull \<Longrightarrow>
   numericStrings parsed = (Some fs, Some lh, Some ba, Some ox, Some oy, Some pd) \<Longrightarrow>
   loadState (Some parsed) =
     \<lparr> text' = spreadField parsed (ascii ''text'') (text' DEFAULT_STATE),
       fontFamily = spreadField parsed (ascii ''fontFamily'') (fontFamily DEFAULT_STATE),
       fontWeight = spreadField parsed (ascii ''fontWeight'') (fontWeight DEFAULT_STATE),
       fontSize = clampInt fs 8 128,
       lineHeight = clampFloat lh (8 / 10) (18 / 10),
       textColor = spreadField parsed (ascii ''textColor'') (textColor DEFAULT_STATE),
       bgColor = spreadField parsed (ascii ''bgColor'') (bgColor DEFAULT_STATE),
       bgTransparent =
         (case getProp parsed (ascii ''bgTransparent'') of
            None \<Rightarrow> bgTransparent DEFAULT_STATE
          | Some JNull \<Rightarrow> bgTransparent DEFAULT_STATE
          | Some v \<Rightarrow> toBoolean v),
       bgAlpha = clampFloat ba 0 1,
       offsetX = clampInt ox (- 64) 64,
       offsetY = clampInt oy (- 64) 64,
       align = spreadField parsed (ascii ''align'') (align DEFAULT_STATE),
       padding = clampInt pd 0 24 \<rparr>"
  by (simp add: loadState_def numericStrings_def)

lemma loadState_throws:
  "parsed \<noteq> JNull \<Longrightarrow> numericStrings parsed = (a, b, c, d, e, f) \<Longrightarrow>
   a = None \<or> b = None \<or> c = None \<or> d = None \<or> e = None \<or> f = None \<Longrightarrow>
   loadState (Some parsed) = asValues DEFAULT_STATE"
  by (auto simp: loadState_def numericStrings_def split: option.split)

lemma default_strings:
  "clampInt (ascii ''56'') 8 128 = 56 \<and>
   clampFloat (ascii ''1.15'') (8 / 10) (18 / 10) = 115 / 100 \<and>
   clampFloat (ascii ''1'') 0 1 = 1 \<and>
   clampInt (ascii ''0'') (- 64) 64 = 0 \<and>
   clampInt (ascii ''0'') 0 24 = 0"
  by (simp add: js_defs)

lemma strOrDefault_missing:
  "getProp parsed k = None \<or> getProp parsed k = Some JNull \<Longrightarrow> strOrDefault parsed k d = Some d"
  by (auto simp: strOrDefault_def)

lemma loadState_fields:
  assumes n: "parsed \<noteq> JNull"
    and s: "numericStrings parsed = (Some fs, Some lh, Some ba, Some ox, Some oy, Some pd)"
  shows "fontSize (loadState (Some parsed)) =
           (case parseInt10 fs of None \<Rightarrow> 8 | Some n \<Rightarrow> max 8 (min 128 n))"
    and "lineHeight (loadState (Some parsed)) =
           (case parseFloat lh of NaN \<Rightarrow> 8 / 10 | NegInf \<Rightarrow> 8 / 10
            | Fin q \<Rightarrow> max (8 / 10) (min (18 / 10) q) | PosInf \<Rightarrow> 18 / 10)"
    and "bgAlpha (loadState (Some parsed)) =
           (case parseFloat ba of NaN \<Rightarrow> 0 | NegInf \<Rightarrow> 0
            | Fin q \<Rightarrow> max 0 (min 1 q) | PosInf \<Rightarrow> 1)"
    and "offsetX (loadState (Some parsed)) =
           (case parseInt10 ox of None \<Rightarrow> - 64 | Some n \<Rightarrow> max (- 64) (min 64 n))"
    and "offsetY (loadState (Some parsed)) =
           (case parseInt10 oy of None \<Rightarrow> - 64 | Some n \<Rightarrow> max (- 64) (min 64 n))"
    and "padding (loadState (Some parsed)) =
           (case parseInt10 pd of None \<Rightarrow> 0 | Some n \<Rightarrow> max 0 (min 24 n))"
    and "bgTransparent (loadState (Some parsed)) =
           (case getProp parsed (ascii ''bgTransparent'') of
              None \<Rightarrow> True
            | Some v \<Rightarrow> if v = JNull then True else toBoolean v)"
    and "align (loadState (Some parsed)) =
           (case getProp parsed (ascii ''align'') of
              None \<Rightarrow> JStr (ascii ''center'')
            | Some v \<Rightarrow> v)"
proof -
  note e = loadState_converted [OF n s]
  show "fontSize (loadState (Some parsed)) =
           (case parseInt10 fs of None \<Rightarrow> 8 | Some n \<Rightarrow> max 8 (min 128 n))"
    by (simp add: e clampInt_def)
  show "lineHeight (loadState (Some parsed)) =
           (case parseFloat lh of NaN \<Rightarrow> 8 / 10 | NegInf \<Rightarrow> 8 / 10
            | Fin q \<Rightarrow> max (8 / 10) (min (18 / 10) q) | PosInf \<Rightarrow> 18 / 10)"
    by (simp add: e clampFloat_def split: jsnum.split)
  show "bgAlpha (loadState (Some parsed)) =
           (case parseFloat ba of NaN \<Rightarrow> 0 | NegInf \<Rightarrow> 0
            | Fin q \<Rightarrow> max 0 (min 1 q) | PosInf \<Rightarrow> 1)"
    by (simp add: e clampFloat_def split: jsnum.split)
  show "offsetX (loadState (Some parsed)) =
           (case parseInt10 ox of None \<Rightarrow> - 64 | Some n \<Rightarrow> max (- 64) (min 64 n))"
    by (simp add: e clampInt_def)
  show "offsetY (loadState (Some parsed)) =
           (case parseInt10 oy of None \<Rightarrow> - 64 | Some n \<Rightarrow> max (- 64) (min 64 n))"
    by (simp add: e clampInt_def)
  show "padding (loadState (Some parsed)) =
           (case parseInt10 pd of None \<Rightarrow> 0 | Some n \<Rightarrow> max 0 (min 24 n))"
    by (simp add: e clampInt_def)
  show "bgTransparent (loadState (Some parsed)) =
           (case getProp parsed (ascii ''bgTransparent'') of
              None \<Rightarrow> True
            | Some v \<Rightarrow> if v = JNull then True else toBoolean v)"
    by (simp add: e DEFAULT_STATE_def split: option.split jsvalue.split)
  show "align (loadState (Some parsed)) =
           (case getProp parsed (ascii ''align'') of
              None \<Rightarrow> JStr (ascii ''center'')
            | Some v \<Rightarrow> v)"
    by (simp add: e spreadField_def DEFAULT_STATE_def split: option.split)
qed

lemma loadState_missing:
  assumes n: "parsed \<noteq> JNull"
    and s: "numericStrings parsed = (Some fs, Some lh, Some ba, Some ox, Some oy, Some pd)"
  shows "getProp parsed (ascii ''fontSize'') = None \<or> getProp parsed (ascii ''fontSize'') = Some JNull
           \<Longrightarrow> fontSize (loadState (Some parsed)) = 56"
    and "getProp parsed (ascii ''lineHeight'') = None \<or> getProp parsed (ascii ''lineHeight'') = Some JNull
           \<Longrightarrow> lineHeight (loadState (Some parsed)) = 115 / 100"
    and "getProp parsed (ascii ''bgAlpha'') = None \<or> getProp parsed (ascii ''bgAlpha'') = Some JNull
           \<Longrightarrow> bgAlpha (loadState (Some parsed)) = 1"
    and "getProp parsed (ascii ''offsetX'') = None \<or> getProp parsed (ascii ''offsetX'') = Some JNull
           \<Longrightarrow> offsetX (loadState (Some parsed)) = 0"
    and "getProp parsed (ascii ''offsetY'') = None \<or> getProp parsed (ascii ''offsetY'') = Some JNull
           \<Longrightarrow> offsetY (loadState (Some parsed)) = 0"
    and "getProp parsed (ascii ''padding'') = None \<or> getProp parsed (ascii ''padding'') = Some JNull
           \<Longrightarrow> padding (loadState (Some parsed)) = 0"
proof -
  note e = loadState_converted [OF n s]
  from s have t: "strOrDefault parsed (ascii ''fontSize'') (ascii ''56'') = Some fs"
    "strOrDefault parsed (ascii ''lineHeight'') (ascii ''1.15'') = Some lh"
    "strOrDefault parsed (ascii ''bgAlpha'') (ascii ''1'') = Some ba"
    "strOrDefault parsed (ascii ''offsetX'') (ascii ''0'') = Some ox"
    "strOrDefault parsed (ascii ''offsetY'') (ascii ''0'') = Some oy"
    "strOrDefault parsed (ascii ''padding'') (ascii ''0'') = Some pd"
    by (simp_all add: numericStrings_def)
  show "fontSize (loadState (Some parsed)) = 56"
    if "getProp parsed (ascii ''fontSize'') = None \<or> getProp parsed (ascii ''fontSize'') = Some JNull"
    using strOrDefault_missing [OF that, of "ascii ''56''"] t(1) default_strings by (simp add: e)
  show "lineHeight (loadState (Some parsed)) = 115 / 100"
    if "getProp parsed (ascii ''lineHeight'') = None \<or> getProp parsed (ascii ''lineHeight'') = Some JNull"
    using strOrDefault_missing [OF that, of "ascii ''1.15''"] t(2) default_strings by (simp add: e)
  show "bgAlpha (loadState (Some parsed)) = 1"
    if "getProp parsed (ascii ''bgAlpha'') = None \<or> getProp parsed (ascii ''bgAlpha'') = Some JNull"
    using strOrDefault_missing [OF that, of "ascii ''1''"] t(3) default_strings by (simp add: e)
  show "offsetX (loadState (Some parsed)) = 0"
    if "getProp parsed (ascii ''offsetX'') = None \<or> getProp parsed (ascii ''offsetX'') = Some JNull"
    using strOrDefault_missing [OF that, of "ascii ''0''"] t(4) default_strings by (simp add: e)
  show "offsetY (loadState (Some parsed)) = 0"
    if "getProp parsed (ascii ''offsetY'') = None \<or> getProp parsed (ascii ''offsetY'') = Some JNull"
    using strOrDefault_missing [OF that, of "ascii ''0''"] t(5) default_strings by (simp add: e)
  show "padding (loadState (Some parsed)) = 0"
    if "getProp parsed (ascii ''padding'') = None \<or> getProp parsed (ascii ''padding'') = Some JNull"
    using strOrDefault_missing [OF that, of "ascii ''0''"] t(6) default_strings by (simp add: e)
qed

text \<open>
  C1, as amended. Whatever the preference store holds, the state that \<^verbatim>\<open>loadState\<close>
  returns has \<open>fontSize\<close> in [8,128], \<open>lineHeight\<close> in [0.8,1.8], \<open>bgAlpha\<close> in [0,1],
  \<open>offsetX\<close> and \<open>offsetY\<close> in [-64,64] and \<open>padding\<close> in [0,24]. A store that is
  missing, unreadable or holds \<^verbatim>\<open>null\<close> gives the defaults, and so does a stored value
  for which the conversion to a string of one of these six fields throws. For any other
  stored value: each of the six fields is read from the string of the stored field, or of
  the default where the field is missing or \<^verbatim>\<open>null\<close>, in that \<^verbatim>\<open>parseInt\<close>
  (\<^verbatim>\<open>parseFloat\<close> for \<open>lineHeight\<close> and \<open>bgAlpha\<close>) reads the number at its start, the
  number is clamped to the range, and the minimum of the range is taken when there is no
  number, so that a field that is missing or \<^verbatim>\<open>null\<close> gets its default;
  \<open>bgTransparent\<close> is the truthiness of the stored field, and true where it is missing
  or \<^verbatim>\<open>null\<close>; and \<open>align\<close> is the stored field as it is, whatever it is, and
  \<^verbatim>\<open>center\<close> where none is stored.
\<close>

theorem loadState_numeric_ranges:
  "(8 \<le> fontSize (loadState raw) \<and> fontSize (loadState raw) \<le> 128 \<and>
    8 / 10 \<le> lineHeight (loadState raw) \<and> lineHeight (loadState raw) \<le> 18 / 10 \<and>
    0 \<le> bgAlpha (loadState raw) \<and> bgAlpha (loadState raw) \<le> 1 \<and>
    - 64 \<le> offsetX (loadState raw) \<and> offsetX (loadState raw) \<le> 64 \<and>
    - 64 \<le> offsetY (loadState raw) \<and> offsetY (loadState raw) \<le> 64 \<and>
    0 \<le> padding (loadState raw) \<and> padding (loadState raw) \<le> 24) \<and>
   loadState None = asValues DEFAULT_STATE \<and>
   loadState (Some JNull) = asValues DEFAULT_STATE \<and>
   (parsed \<noteq> JNull \<and> numericStrings parsed = (a, b, c, d, e, f) \<and>
    (a = None \<or> b = None \<or> c = None \<or> d = None \<or> e = None \<or> f = None) \<longrightarrow>
      loadState (Some parsed) = asValues DEFAULT_STATE) \<and>
   (parsed \<noteq> JNull \<and>
    numericStrings parsed = (Some fs, Some lh, Some ba, Some ox, Some oy, Some pd) \<longrightarrow>
      fontSize (loadState (Some parsed)) =
        (case parseInt10 fs of None \<Rightarrow> 8 | Some n \<Rightarrow> max 8 (min 128 n)) \<and>
      lineHeight (loadState (Some parsed)) =
        (case parseFloat lh of NaN \<Rightarrow> 8 / 10 | NegInf \<Rightarrow> 8 / 10
         | Fin q \<Rightarrow> max (8 / 10) (min (18 / 10) q) | PosInf \<Rightarrow> 18 / 10) \<and>
      bgAlpha (loadState (Some parsed)) =
        (case parseFloat ba of NaN \<Rightarrow> 0 | NegInf \<Rightarrow> 0
         | Fin q \<Rightarrow> max 0 (min 1 q) | PosInf \<Rightarrow> 1) \<and>
      offsetX (loadState (Some parsed)) =
        (case parseInt10 ox of None \<Rightarrow> - 64 | Some n \<Rightarrow> max (- 64) (min 64 n)) \<and>
      offsetY (loadState (Some parsed)) =
        (case parseInt10 oy of None \<Rightarrow> - 64 | Some n \<Rightarrow> max (- 64) (min 64 n)) \<and>
      padding (loadState (Some parsed)) =
        (case parseInt10 pd of None \<Rightarrow> 0 | Some n \<Rightarrow> max 0 (min 24 n)) \<and>
      bgTransparent (loadState (Some parsed)) =
        (case getProp parsed (ascii ''bgTransparent'') of
           None \<Rightarrow> True
         | Some v \<Rightarrow> if v = JNull then True else toBoolean v) \<and>
      align (loadState (Some parsed)) =
        (case getProp parsed (ascii ''align'') of
           None \<Rightarrow> JStr (ascii ''center'')
         | Some v \<Rightarrow> v) \<and>
      (getProp parsed (ascii ''fontSize'') = None \<or> getProp parsed (ascii ''fontSize'') = Some JNull
         \<longrightarrow> fontSize (loadState (Some parsed)) = 56) \<and>
      (getProp parsed (ascii ''lineHeight'') = None \<or> getProp parsed (ascii ''lineHeight'') = Some JNull
         \<longrightarrow> lineHeight (loadState (Some parsed)) = 115 / 100) \<and>
      (getProp parsed (ascii ''bgAlpha'') = None \<or> getProp parsed (ascii ''bgAlpha'') = Some JNull
         \<longrightarrow> bgAlpha (loadState (Some parsed)) = 1) \<and>
      (getProp parsed (ascii ''offsetX'') = None \<or> getProp parsed (ascii ''offsetX'') = Some JNull
         \<longrightarrow> offsetX (loadState (Some parsed)) = 0) \<and>
      (getProp parsed (ascii ''offsetY'') = None \<or> getProp parsed (ascii ''offsetY'') = Some JNull
         \<longrightarrow> offsetY (loadState (Some parsed)) = 0) \<and>
      (getProp parsed (ascii ''padding'') = None \<or> getProp parsed (ascii ''padding'') = Some JNull
         \<longrightarrow> padding (loadState (Some parsed)) = 0)) \<and>
   numericStrings parsed =
     (strOrDefault parsed (ascii ''fontSize'') (ascii ''56''),
      strOrDefault parsed (ascii ''lineHeight'') (ascii ''1.15''),
      strOrDefault parsed (ascii ''bgAlpha'') (ascii ''1''),
      strOrDefault parsed (ascii ''offsetX'') (ascii ''0''),
      strOrDefault parsed (ascii ''offsetY'') (ascii ''0''),
      strOrDefault parsed (ascii ''padding'') (ascii ''0'')) \<and>
   (getProp parsed k = None \<or> getProp parsed k = Some JNull \<longrightarrow>
      strOrDefault parsed k dflt = Some dflt) \<and>
   (getProp parsed k = Some v \<and> v \<noteq> JNull \<longrightarrow> strOrDefault parsed k dflt = toStr v)"
  (is "?ranges \<and> ?none \<and> ?null \<and> ?throws \<and> (?conv \<longrightarrow> ?fields) \<and> ?strings \<and>
       ?missing \<and> ?stored")
proof -
  have ranges: ?ranges
    by (rule loadState_ranges)
  have none: ?none
    by (simp add: loadState_def)
  have null: ?null
    by (simp add: loadState_def)
  have throws: ?throws
    using loadState_throws [of parsed a b c d e f] by blast
  have fields: ?fields if ?conv
  proof -
    from that have n: "parsed \<noteq> JNull"
      and s: "numericStrings parsed = (Some fs, Some lh, Some ba, Some ox, Some oy, Some pd)"
      by blast+
    note F = loadState_fields [OF n s] and M = loadState_missing [OF n s]
    show ?thesis
      by (intro conjI impI) (rule F | erule M)+
  qed
  have strings: ?strings
    by (simp add: numericStrings_def)
  have missing: ?missing
    using strOrDefault_missing [of parsed k dflt] by blast
  have stored: ?stored
    by (cases v) (simp_all add: strOrDefault_def)
  from ranges none null throws fields strings missing stored show ?thesis
    by blast
qed

theorem loadState_numeric_ranges_witness:
  "storedOdd \<noteq> JNull \<and>
   numericStrings storedOdd =
     (Some (ascii ''1e+21''), Some (ascii ''1.5px''), Some (ascii ''1''), Some (ascii ''5e-7''),
      Some (ascii ''-200''), Some (ascii ''0'')) \<and>
   getProp storedOdd (ascii ''bgAlpha'') = None \<and>
   getProp storedOdd (ascii ''padding'') = Some JNull \<and>
   getProp storedOdd (ascii ''offsetX'') = Some (JNum (ascii ''5e-7'')) \<and>
   strOrDefault storedOdd (ascii ''bgAlpha'') (ascii ''1'') = Some (ascii ''1'') \<and>
   strOrDefault storedOdd (ascii ''offsetX'') (ascii ''0'') = Some (ascii ''5e-7'') \<and>
   fontSize (loadState (Some storedOdd)) = 8 \<and>
   lineHeight (loadState (Some storedOdd)) = 3 / 2 \<and>
   bgAlpha (loadState (Some storedOdd)) = 1 \<and>
   offsetX (loadState (Some storedOdd)) = 5 \<and>
   offsetY (loadState (Some storedOdd)) = - 64 \<and>
   padding (loadState (Some storedOdd)) = 0 \<and>
   \<not> bgTransparent (loadState (Some storedOdd)) \<and>
   align (loadState (Some storedOdd)) = JStr (ascii ''justify'') \<and>
   storedThrowing \<noteq> JNull \<and>
   numericStrings storedThrowing =
     (Some (ascii ''56''), Some (ascii ''1.15''), Some (ascii ''1''), Some (ascii ''0''),
      Some (ascii ''0''), None) \<and>
   loadState (Some storedThrowing) = asValues DEFAULT_STATE \<and>
   align (loadState (Some storedThrowing)) = JStr (ascii ''center'')"
proof -
  have n: "storedOdd \<noteq> JNull"
    by (simp add: storedOdd_def)
  have s: "numericStrings storedOdd =
     (Some (ascii ''1e+21''), Some (ascii ''1.5px''), Some (ascii ''1''), Some (ascii ''5e-7''),
      Some (ascii ''-200''), Some (ascii ''0''))"
    by (simp add: storedOdd_def numericStrings_def strOrDefault_def ascii_def)
  have g: "getProp storedOdd (ascii ''bgAlpha'') = None"
    "getProp storedOdd (ascii ''padding'') = Some JNull"
    "getProp storedOdd (ascii ''bgTransparent'') = Some (JNum (ascii ''0''))"
    "getProp storedOdd (ascii ''align'') = Some (JStr (ascii ''justify''))"
    "getProp storedOdd (ascii ''offsetX'') = Some (JNum (ascii ''5e-7''))"
    by (simp_all add: storedOdd_def ascii_def)
  from g(1) loadState_numeric_ranges [where parsed = storedOdd and k = "ascii ''bgAlpha''"
      and dflt = "ascii ''1''"]
  have m: "strOrDefault storedOdd (ascii ''bgAlpha'') (ascii ''1'') = Some (ascii ''1'')"
    by blast
  from g(5) loadState_numeric_ranges [where parsed = storedOdd and k = "ascii ''offsetX''"
      and v = "JNum (ascii ''5e-7'')" and dflt = "ascii ''0''"]
  have "strOrDefault storedOdd (ascii ''offsetX'') (ascii ''0'') = toStr (JNum (ascii ''5e-7''))"
    by blast
  then have x: "strOrDefault storedOdd (ascii ''offsetX'') (ascii ''0'') = Some (ascii ''5e-7'')"
    by simp
  have p: "parseInt10 (ascii ''1e+21'') = Some 1" "parseFloat (ascii ''1.5px'') = Fin (3 / 2)"
    "parseInt10 (ascii ''5e-7'') = Some 5" "parseInt10 (ascii ''-200'') = Some (- 200)"
    by (simp_all add: js_defs)
  have n': "storedThrowing \<noteq> JNull"
    by (simp add: storedThrowing_def)
  have s': "numericStrings storedThrowing =
     (Some (ascii ''56''), Some (ascii ''1.15''), Some (ascii ''1''), Some (ascii ''0''),
      Some (ascii ''0''), None)"
    by (simp add: storedThrowing_def numericStrings_def strOrDefault_def ascii_def)
  from n s loadState_numeric_ranges [where parsed = storedOdd and fs = "ascii ''1e+21''"
      and lh = "ascii ''1.5px''" and ba = "ascii ''1''" and ox = "ascii ''5e-7''"
      and oy = "ascii ''-200''" and pd = "ascii ''0''"]
  have odd: "fontSize (loadState (Some storedOdd)) =
        (case parseInt10 (ascii ''1e+21'') of None \<Rightarrow> 8 | Some n \<Rightarrow> max 8 (min 128 n))"
    "lineHeight (loadState (Some storedOdd)) =
        (case parseFloat (ascii ''1.5px'') of NaN \<Rightarrow> 8 / 10 | NegInf \<Rightarrow> 8 / 10
         | Fin q \<Rightarrow> max (8 / 10) (min (18 / 10) q) | PosInf \<Rightarrow> 18 / 10)"
    "offsetX (loadState (Some storedOdd)) =
        (case parseInt10 (ascii ''5e-7'') of None \<Rightarrow> - 64 | Some n \<Rightarrow> max (- 64) (min 64 n))"
    "offsetY (loadState (Some storedOdd)) =
        (case parseInt10 (ascii ''-200'') of None \<Rightarrow> - 64 | Some n \<Rightarrow> max (- 64) (min 64 n))"
    "bgTransparent (loadState (Some storedOdd)) =
        (case getProp storedOdd (ascii ''bgTransparent'') of
           None \<Rightarrow> True
         | Some v \<Rightarrow> if v = JNull then True else toBoolean v)"
    "align (loadState (Some storedOdd)) =
        (case getProp storedOdd (ascii ''align'') of
           None \<Rightarrow> JStr (ascii ''center'')
         | Some v \<Rightarrow> v)"
    "getProp storedOdd (ascii ''bgAlpha'') = None \<or> getProp storedOdd (ascii ''bgAlpha'') = Some JNull
         \<longrightarrow> bgAlpha (loadState (Some storedOdd)) = 1"
    "getProp storedOdd (ascii ''padding'') = None \<or> getProp storedOdd (ascii ''padding'') = Some JNull
         \<longrightarrow> padding (loadState (Some storedOdd)) = 0"
    by blast+
  from n' s' loadState_numeric_ranges [where parsed = storedThrowing and a = "Some (ascii ''56'')"
      and b = "Some (ascii ''1.15'')" and c = "Some (ascii ''1'')" and d = "Some (ascii ''0'')"
      and e = "Some (ascii ''0'')" and f = None]
  have thr: "loadState (Some storedThrowing) = asValues DEFAULT_STATE"
    by blast
  have v: "fontSize (loadState (Some storedOdd)) = 8" "lineHeight (loadState (Some storedOdd)) = 3 / 2"
    "bgAlpha (loadState (Some storedOdd)) = 1" "offsetX (loadState (Some storedOdd)) = 5"
    "offsetY (loadState (Some storedOdd)) = - 64" "padding (loadState (Some storedOdd)) = 0"
    "\<not> bgTransparent (loadState (Some storedOdd))"
    "align (loadState (Some storedOdd)) = JStr (ascii ''justify'')"
    using odd g p by (simp_all add: ascii_def)
  have w: "align (loadState (Some storedThrowing)) = JStr (ascii ''center'')"
    by (simp add: thr asValues_def DEFAULT_STATE_def)
  from n s g(1,2,5) m x v n' s' thr w show ?thesis by (intro conjI)
qed

text \<open>
  The claim C1 as it is stated fails for the alignment: a stored \<^verbatim>\<open>{"align": "justify"}\<close>
  is loaded with \<open>align\<close> equal to \<^verbatim>\<open>justify\<close>, which is none of the three values of
  the enum.
\<close>

theorem loadState_align_counterexample:
  "align (loadState (Some (JObj [(ascii ''align'', JStr (ascii ''justify''))])))
     = JStr (ascii ''justify'') \<and>
   \<not> isAlignValue (JStr (ascii ''justify''))"
  by (simp add: loadState_def strOrDefault_def spreadField_def js_defs)

text \<open>The colours are copied in the same way, where \<^verbatim>\<open>readControlsIntoState\<close> falls
  back to the default, and a stored value need not be a string.\<close>

lemma loadState_color_unchecked:
  "textColor (loadState (Some (JObj [(ascii ''textColor'', JStr (ascii ''not-a-color''))])))
     = JStr (ascii ''not-a-color'') \<and>
   \<not> isColorValue (JStr (ascii ''not-a-color'')) \<and>
   bgColor (loadState (Some (JObj [(ascii ''bgColor'', JNum (ascii ''5''))]))) = JNum (ascii ''5'')"
  by (simp add: loadState_def strOrDefault_def spreadField_def js_defs)

text \<open>A stored number is sanitized through its string, and a conversion that throws
  ends in the defaults.\<close>

lemma loadState_examples:
  "fontSize (loadState (Some (JObj [(ascii ''fontSize'', JNum (ascii ''1e+21''))]))) = 8 \<and>
   lineHeight (loadState (Some (JObj [(ascii ''lineHeight'', JStr (ascii ''1.5px''))]))) = 3 / 2 \<and>
   offsetX (loadState (Some (JObj [(ascii ''offsetX'', JNum (ascii ''Infinity''))]))) = - 64 \<and>
   loadState (Some (JObj [(ascii ''padding'', JObj [(ascii ''toString'', JNull)])]))
     = asValues DEFAULT_STATE \<and>
   loadState (Some (JObj [])) = asValues DEFAULT_STATE"
  by (simp add: loadState_def strOrDefault_def spreadField_def asValues_def DEFAULT_STATE_def js_defs)

section \<open>Rendering\<close>

lemma upt_0_Suc_shift: "[0..<Suc n] = 0 # map Suc [0..<n]"
  by (simp add: upt_conv_Cons map_Suc_upt del: upt_Suc)

lemma filter_fillText_drawLines:
  "filter isFillText (drawLines x y0 lh i ts)
     = map (\<lambda>j. FillText (ts ! j) x (y0 + of_nat (i + j) * lh))
         (filter (\<lambda>j. ts ! j \<noteq> []) [0..<length ts])"
proof (induction ts arbitrary: i)
  case Nil
  then show ?case by simp
next
  case (Cons t ts)
  have tail: "map (\<lambda>j. FillText ((t # ts) ! j) x (y0 + of_nat (i + j) * lh))
                (filter (\<lambda>j. (t # ts) ! j \<noteq> []) (map Suc [0..<length ts]))
              = filter isFillText (drawLines x y0 lh (Suc i) ts)"
    by (simp add: Cons.IH filter_map comp_def)
  have "filter isFillText (drawLines x y0 lh i (t # ts))
          = (if t = [] then [] else [FillText t x (y0 + of_nat i * lh)])
            @ filter isFillText (drawLines x y0 lh (Suc i) ts)"
    by simp
  also have "\<dots> = map (\<lambda>j. FillText ((t # ts) ! j) x (y0 + of_nat (i + j) * lh))
                (filter (\<lambda>j. (t # ts) ! j \<noteq> []) (0 # map Suc [0..<length ts]))"
    unfolding tail [symmetric] by simp
  finally show ?case
    by (simp only: length_Cons upt_0_Suc_shift)
qed

lemma fillRect_drawLines: "filter isFillRect (drawLines x y0 lh i ts) = []"
  by (induction ts arbitrary: i) simp_all

lemma background_cases:
  "background s = [] \<or>
   (\<exists>r g b. background s = [SetFillStyle (Rgba r g b (bgAlpha s)), FillRect 0 0 EXPORT_SIZE EXPORT_SIZE])"
proof (cases "hexToRgb (bgColor s)")
  case None
  then have "background s = []" unfolding background_def by simp
  then show ?thesis by blast
next
  case (Some rgb)
  obtain r g b where "rgb = (r, g, b)" by (cases rgb) auto
  with Some have "background s = [] \<or>
      background s = [SetFillStyle (Rgba r g b (bgAlpha s)), FillRect 0 0 EXPORT_SIZE EXPORT_SIZE]"
    unfolding background_def by simp
  then show ?thesis by blast
qed

lemma fillText_background: "filter isFillText (background s) = []"
proof -
  from background_cases [of s] show ?thesis
  proof
    assume "background s = []"
    then show ?thesis by simp
  next
    assume "\<exists>r g b. background s = [SetFillStyle (Rgba r g b (bgAlpha s)), FillRect 0 0 EXPORT_SIZE EXPORT_SIZE]"
    then obtain r g b where
      "background s = [SetFillStyle (Rgba r g b (bgAlpha s)), FillRect 0 0 EXPORT_SIZE EXPORT_SIZE]"
      by blast
    then show ?thesis by simp
  qed
qed

text \<open>
  C4. The calls of \<^verbatim>\<open>fillText\<close> that \<^verbatim>\<open>renderExportCanvas\<close> makes are, in order, one
  for each line that is not empty; line \<open>i\<close> is drawn at the vertical position
  \<open>128/2 - totalHeight/2 + lineHeightPx/2 + offsetY + i * lineHeightPx\<close>, with
  \<open>lineHeightPx = fontSize * lineHeight\<close> and \<open>totalHeight = lineHeightPx * n\<close> for the
  \<open>n\<close> lines of the text; the text baseline is \<^verbatim>\<open>middle\<close>, so this is the vertical
  centre of the line. For the text \<^verbatim>\<open>A\nB\<close>, font size 40, line height 1 and no
  offset the two lines are drawn at 44 and 84.
\<close>

theorem render_line_centers:
  "(let lines = splitLines (normalizeNewlines (text' s));
        n = length lines;
        lineHeightPx = of_int (fontSize s) * lineHeight s;
        totalHeight = lineHeightPx * of_nat n;
        firstY = 128 / 2 - totalHeight / 2 + lineHeightPx / 2 + of_int (offsetY s)
    in filter isFillText (renderExportCanvas s)
         = map (\<lambda>i. FillText (lines ! i) (textX s) (firstY + of_nat i * lineHeightPx))
             (filter (\<lambda>i. lines ! i \<noteq> []) [0..<n])) \<and>
   SetTextBaseline (ascii ''middle'') \<in> set (renderExportCanvas s) \<and>
   filter isFillText (renderExportCanvas abState)
     = [FillText (ascii ''A'') 64 44, FillText (ascii ''B'') 64 84]"
proof -
  have baseline: "SetTextBaseline (ascii ''middle'') \<in> set (renderExportCanvas s)"
    by (simp add: renderExportCanvas_def Let_def)
  have general: "\<And>s. (let lines = splitLines (normalizeNewlines (text' s));
        n = length lines;
        lineHeightPx = of_int (fontSize s) * lineHeight s;
        totalHeight = lineHeightPx * of_nat n;
        firstY = 128 / 2 - totalHeight / 2 + lineHeightPx / 2 + of_int (offsetY s)
    in filter isFillText (renderExportCanvas s)
         = map (\<lambda>i. FillText (lines ! i) (textX s) (firstY + of_nat i * lineHeightPx))
             (filter (\<lambda>i. lines ! i \<noteq> []) [0..<n]))"
    by (simp add: renderExportCanvas_def Let_def EXPORT_SIZE_def fillText_background
        filter_fillText_drawLines)
  have lines: "splitLines (normalizeNewlines (text' abState)) = [ascii ''A'', ascii ''B'']"
    by (simp add: abState_def ascii_def)
  have x: "textX abState = 64"
    by (simp add: textX_def abState_def DEFAULT_STATE_def EXPORT_SIZE_def ascii_def)
  have nums: "fontSize abState = 40" "lineHeight abState = 1" "offsetY abState = 0"
    by (simp_all add: abState_def)
  have "filter isFillText (renderExportCanvas abState)
          = [FillText (ascii ''A'') 64 44, FillText (ascii ''B'') 64 84]"
    using general [of abState]
    by (simp add: lines x nums Let_def ascii_def upt_conv_Cons)
  with general [of s] baseline show ?thesis by simp
qed

lemma paints_drawLines:
  "filter paints (drawLines x y0 lh i ts) = filter isFillText (drawLines x y0 lh i ts)"
  by (induction ts arbitrary: i) simp_all

text \<open>Without a background the calls are those of the text layer alone: after the
  canvas is cleared, nothing but text is painted.\<close>

lemma render_no_background:
  assumes "background s = []"
  shows "hd (renderExportCanvas s) = ClearRect 0 0 128 128"
    and "filter isFillRect (renderExportCanvas s) = []"
    and "filter paints (tl (renderExportCanvas s)) = filter isFillText (renderExportCanvas s)"
  using assms
  by (simp_all add: renderExportCanvas_def Let_def EXPORT_SIZE_def fillRect_drawLines
      paints_drawLines)

lemma background_transparent: "bgTransparent s \<Longrightarrow> background s = []"
  by (simp add: background_def)

lemma render_background_only:
  "background s = background s' \<Longrightarrow> text' s = text' s' \<Longrightarrow> fontSize s = fontSize s' \<Longrightarrow>
   lineHeight s = lineHeight s' \<Longrightarrow> padding s = padding s' \<Longrightarrow> offsetX s = offsetX s' \<Longrightarrow>
   offsetY s = offsetY s' \<Longrightarrow> align s = align s' \<Longrightarrow> textColor s = textColor s' \<Longrightarrow>
   fontWeight s = fontWeight s' \<Longrightarrow> fontFamily s = fontFamily s' \<Longrightarrow>
   renderExportCanvas s = renderExportCanvas s'"
  by (simp add: renderExportCanvas_def textX_def cong: if_cong)

text \<open>
  C7. When \<open>bgTransparent\<close> is set, \<^verbatim>\<open>renderExportCanvas\<close> makes the same calls whatever
  \<open>bgColor\<close> and \<open>bgAlpha\<close> are: it clears the canvas first, never calls
  \<^verbatim>\<open>fillRect\<close>, and the only calls after the clearing that paint are those of
  \<^verbatim>\<open>fillText\<close>. No pixel outside the glyphs is painted.
\<close>

theorem render_transparent:
  "bgTransparent s \<Longrightarrow>
     renderExportCanvas (s\<lparr> bgColor := c, bgAlpha := a \<rparr>) = renderExportCanvas s \<and>
     hd (renderExportCanvas s) = ClearRect 0 0 128 128 \<and>
     filter isFillRect (renderExportCanvas s) = [] \<and>
     filter paints (tl (renderExportCanvas s)) = filter isFillText (renderExportCanvas s)"
proof -
  assume t: "bgTransparent s"
  then have b: "background s = []"
    by (rule background_transparent)
  from t have "background (s\<lparr> bgColor := c, bgAlpha := a \<rparr>) = []"
    by (simp add: background_def)
  with b have "renderExportCanvas (s\<lparr> bgColor := c, bgAlpha := a \<rparr>) = renderExportCanvas s"
    by (intro render_background_only) simp_all
  with render_no_background [OF b] show ?thesis by simp
qed

theorem render_transparent_witness:
  "bgTransparent transparentRed \<and> bgColor transparentRed = ascii ''#ff0000'' \<and>
   bgAlpha transparentRed = 1 \<and>
   renderExportCanvas (transparentRed\<lparr> bgColor := ascii ''#0000ff'', bgAlpha := 1 / 2 \<rparr>)
     = renderExportCanvas transparentRed \<and>
   filter isFillRect (renderExportCanvas transparentRed) = [] \<and>
   filter paints (tl (renderExportCanvas transparentRed))
     = [FillText (ascii ''Hi'') 64 64]"
proof -
  have t: "bgTransparent transparentRed"
    by (simp add: transparentRed_def)
  have f: "filter isFillText (renderExportCanvas transparentRed) = [FillText (ascii ''Hi'') 64 64]"
    by (simp add: renderExportCanvas_def transparentRed_def DEFAULT_STATE_def background_def
        textX_def EXPORT_SIZE_def ascii_def Let_def)
  have v: "bgColor transparentRed = ascii ''#ff0000''" "bgAlpha transparentRed = 1"
    by (simp_all add: transparentRed_def)
  from render_transparent [OF t, where c = "ascii ''#0000ff''" and a = "1 / 2"]
  have "renderExportCanvas (transparentRed\<lparr> bgColor := ascii ''#0000ff'', bgAlpha := 1 / 2 \<rparr>)
          = renderExportCanvas transparentRed"
    and "filter isFillRect (renderExportCanvas transparentRed) = []"
    and "filter paints (tl (renderExportCanvas transparentRed))
          = filter isFillText (renderExportCanvas transparentRed)"
    by blast+
  with t v f show ?thesis by simp
qed




section \<open>Scheduling\<close>

lemma scheduleRender_idle:
  "idle w \<Longrightarrow> pending (scheduleRender w) \<and> renders (scheduleRender w) = renders w \<and>
     state (scheduleRender w) = state w \<and> scheduleCalls (scheduleRender w) = scheduleCalls w + 1"
  by (simp add: idle_def pending_def scheduleRender_def requestAnimationFrame_def Let_def)

lemma scheduleRender_pending:
  "pending w \<Longrightarrow> pending (scheduleRender w) \<and> renders (scheduleRender w) = renders w \<and>
     state (scheduleRender w) = state w \<and> scheduleCalls (scheduleRender w) = scheduleCalls w + 1"
  by (simp add: pending_def scheduleRender_def Let_def)

lemma scheduleRender_any:
  "idle w \<or> pending w \<Longrightarrow> pending (scheduleRender w) \<and> renders (scheduleRender w) = renders w \<and>
     state (scheduleRender w) = state w \<and> scheduleCalls (scheduleRender w) = scheduleCalls w + 1"
  using scheduleRender_idle scheduleRender_pending by blast

lemma ensureFontLoaded_frame:
  "rafId (ensureFontLoaded f w) = rafId w \<and> frameCallbacks (ensureFontLoaded f w) = frameCallbacks w \<and>
   renders (ensureFontLoaded f w) = renders w \<and> state (ensureFontLoaded f w) = state w \<and>
   scheduleCalls (ensureFontLoaded f w) = scheduleCalls w"
  by (simp add: ensureFontLoaded_def Let_def)

lemma handle_any:
  assumes "idle w \<or> pending w"
  shows "pending (handle c w) \<and> renders (handle c w) = renders w \<and>
         scheduleCalls (handle c w) = scheduleCalls w + 1"
proof (cases c)
  case (OnAnyInput ctl)
  let ?w = "w\<lparr> state := readControlsIntoState ctl (state w) \<rparr>"
  from assms have "idle ?w \<or> pending ?w"
    by (simp add: idle_def pending_def)
  from scheduleRender_any [OF this] OnAnyInput show ?thesis
    by (simp add: onAnyInput_def)
next
  case ResetClick
  let ?w = "ensureFontLoaded (fontFamily DEFAULT_STATE) (w\<lparr> state := DEFAULT_STATE \<rparr>)"
  from assms have "idle ?w \<or> pending ?w"
    by (simp add: idle_def pending_def ensureFontLoaded_frame)
  from scheduleRender_any [OF this] ResetClick show ?thesis
    by (simp add: resetClick_def ensureFontLoaded_frame)
next
  case ScheduleRender
  with scheduleRender_any [OF assms] show ?thesis by simp
qed

lemma handles_pending:
  "pending w \<Longrightarrow> pending (fold handle cs w) \<and> renders (fold handle cs w) = renders w \<and>
     scheduleCalls (fold handle cs w) = scheduleCalls w + length cs"
proof (induction cs arbitrary: w)
  case Nil
  then show ?case by simp
next
  case (Cons c cs)
  from Cons.prems have h: "pending (handle c w) \<and> renders (handle c w) = renders w \<and>
      scheduleCalls (handle c w) = scheduleCalls w + 1"
    by (intro handle_any) simp
  with Cons.IH [of "handle c w"] show ?case by simp
qed

lemma runFrame_pending:
  "pending w \<Longrightarrow> idle (runFrame w) \<and> renders (runFrame w) = renders w @ [(state w, 0)] \<and>
     state (runFrame w) = state w"
  by (simp add: pending_def idle_def runFrame_def frameCallback_def renderAll_def)

text \<open>The scheduler is in one of its two states whatever happens: a frame without a
  registered callback does nothing, and a font load that is issued or settles either
  calls \<^verbatim>\<open>scheduleRender\<close> or leaves the scheduler as it is.\<close>

lemma runFrame_idle: "idle w \<Longrightarrow> runFrame w = w"
  by (simp add: idle_def runFrame_def)

lemma fontSettled_scheduler:
  assumes "idle w \<or> pending w"
  shows "idle (fontSettled l ok w) \<or> pending (fontSettled l ok w)"
proof -
  let ?w = "w\<lparr> fontLoads := remove1 l (fontLoads w) \<rparr>"
  from assms have a: "idle ?w \<or> pending ?w"
    by (simp add: idle_def pending_def)
  show ?thesis
  proof (cases "snd l = fontLoadToken w")
    case True
    with scheduleRender_any [OF a] show ?thesis
      by (simp add: fontSettled_def Let_def)
  next
    case False
    with a show ?thesis
      by (simp add: fontSettled_def Let_def)
  qed
qed

lemma ensureFontLoaded_scheduler:
  "idle w \<or> pending w \<Longrightarrow> idle (ensureFontLoaded f w) \<or> pending (ensureFontLoaded f w)"
  by (simp add: idle_def pending_def ensureFontLoaded_def Let_def)

text \<open>
  C5. From the idle state, any number \<open>N \<ge> 1\<close> of handlers that call
  \<^verbatim>\<open>scheduleRender\<close> (\<open>N\<close> calls in all) leave one frame callback registered and render
  nothing; when the frame fires there is exactly one more call of \<^verbatim>\<open>renderAll\<close>, it
  draws the state as it is then, which is the state the last handler left, \<^verbatim>\<open>rafId\<close> is
  already 0 when it is called, and the scheduler is idle again.
\<close>

theorem schedule_coalesced:
  "idle w \<Longrightarrow> cs \<noteq> [] \<Longrightarrow>
     pending (fold handle cs w) \<and>
     renders (fold handle cs w) = renders w \<and>
     scheduleCalls (fold handle cs w) = scheduleCalls w + length cs \<and>
     renders (runFrame (fold handle cs w)) = renders w @ [(state (fold handle cs w), 0)] \<and>
     state (runFrame (fold handle cs w)) = state (fold handle cs w) \<and>
     idle (runFrame (fold handle cs w))"
proof -
  assume i: "idle w" and n: "cs \<noteq> []"
  from n obtain c cs' where cs: "cs = c # cs'"
    by (cases cs) auto
  from i have h: "pending (handle c w) \<and> renders (handle c w) = renders w \<and>
      scheduleCalls (handle c w) = scheduleCalls w + 1"
    by (intro handle_any) simp
  with handles_pending [of "handle c w" cs'] cs
  have p: "pending (fold handle cs w)" "renders (fold handle cs w) = renders w"
    "scheduleCalls (fold handle cs w) = scheduleCalls w + length cs"
    by simp_all
  from runFrame_pending [OF p(1)] p show ?thesis by simp
qed

theorem schedule_coalesced_witness:
  "idle initWorld \<and>
   [OnAnyInput okControls, ScheduleRender, OnAnyInput junkControls] \<noteq> [] \<and>
   renders (runFrame (fold handle [OnAnyInput okControls, ScheduleRender, OnAnyInput junkControls] initWorld))
     = [(readControlsIntoState junkControls (readControlsIntoState okControls DEFAULT_STATE), 0)] \<and>
   scheduleCalls (fold handle [OnAnyInput okControls, ScheduleRender, OnAnyInput junkControls] initWorld) = 3"
proof -
  have i: "idle initWorld"
    by (simp add: idle_def initWorld_def)
  have n: "[OnAnyInput okControls, ScheduleRender, OnAnyInput junkControls] \<noteq> []"
    by simp
  have s: "state (fold handle [OnAnyInput okControls, ScheduleRender, OnAnyInput junkControls] initWorld)
             = readControlsIntoState junkControls (readControlsIntoState okControls DEFAULT_STATE)"
    by (simp add: onAnyInput_def scheduleRender_def requestAnimationFrame_def initWorld_def Let_def)
  have r: "renders initWorld = []" "scheduleCalls initWorld = 0"
    by (simp_all add: initWorld_def)
  from schedule_coalesced [OF i n] i s r show ?thesis by simp
qed

section \<open>Font loads\<close>

lemma scheduleRender_token:
  "fontLoadToken (scheduleRender w) = fontLoadToken w \<and> fontLoads (scheduleRender w) = fontLoads w \<and>
   scheduleCalls (scheduleRender w) = scheduleCalls w + 1"
  by (simp add: scheduleRender_def requestAnimationFrame_def Let_def)

text \<open>
  C6. After \<^verbatim>\<open>ensureFontLoaded\<close> for a family A and then for a family B, with the load
  of A not yet settled, the two loads are in flight with consecutive tokens. When the
  load of A settles, before or after that of B, resolved or rejected, the continuation
  does not call \<^verbatim>\<open>scheduleRender\<close> and changes nothing but the list of loads; when the
  load of B settles, resolved or rejected, \<^verbatim>\<open>scheduleRender\<close> is called once.
\<close>

theorem font_supersession:
  "fontsAvailable w \<Longrightarrow>
     (let w2 = ensureFontLoaded fb (ensureFontLoaded fa w);
          la = (fa, fontLoadToken w + 1);
          lb = (fb, fontLoadToken w + 2)
      in fontLoads w2 = fontLoads w @ [la, lb] \<and>
         fontSettled la okA w2 = w2\<lparr> fontLoads := remove1 la (fontLoads w2) \<rparr> \<and>
         scheduleCalls (fontSettled la okA w2) = scheduleCalls w2 \<and>
         scheduleCalls (fontSettled lb okB (fontSettled la okA w2)) = scheduleCalls w2 + 1 \<and>
         scheduleCalls (fontSettled lb okB w2) = scheduleCalls w2 + 1 \<and>
         scheduleCalls (fontSettled la okA (fontSettled lb okB w2)) = scheduleCalls w2 + 1)"
  by (simp add: ensureFontLoaded_def fontSettled_def Let_def scheduleRender_token)

theorem font_supersession_witness:
  "fontsAvailable initWorld \<and> fontLoadToken initWorld = 0 \<and>
   scheduleCalls (ensureFontLoaded (ascii ''B'') (ensureFontLoaded (ascii ''A'') initWorld)) = 0 \<and>
   (let w2 = ensureFontLoaded (ascii ''B'') (ensureFontLoaded (ascii ''A'') initWorld);
        la = (ascii ''A'', fontLoadToken initWorld + 1);
        lb = (ascii ''B'', fontLoadToken initWorld + 2)
    in scheduleCalls (fontSettled la True w2) = scheduleCalls w2 \<and>
       scheduleCalls (fontSettled lb False (fontSettled la True w2)) = scheduleCalls w2 + 1 \<and>
       scheduleCalls (fontSettled la True (fontSettled lb False w2)) = scheduleCalls w2 + 1)"
proof -
  have f: "fontsAvailable initWorld"
    by (simp add: initWorld_def)
  have z: "fontLoadToken initWorld = 0"
    "scheduleCalls (ensureFontLoaded (ascii ''B'') (ensureFontLoaded (ascii ''A'') initWorld)) = 0"
    by (simp_all add: initWorld_def ensureFontLoaded_def Let_def)
  have "let w2 = ensureFontLoaded (ascii ''B'') (ensureFontLoaded (ascii ''A'') initWorld);
            la = (ascii ''A'', fontLoadToken initWorld + 1);
            lb = (ascii ''B'', fontLoadToken initWorld + 2)
        in scheduleCalls (fontSettled la True w2) = scheduleCalls w2 \<and>
           scheduleCalls (fontSettled lb False (fontSettled la True w2)) = scheduleCalls w2 + 1 \<and>
           scheduleCalls (fontSettled la True (fontSettled lb False w2)) = scheduleCalls w2 + 1"
    using font_supersession [OF f, where fa = "ascii ''A''" and fb = "ascii ''B''"
        and okA = True and okB = False]
    unfolding Let_def by blast
  with f z show ?thesis by blast
qed

section \<open>File names\<close>

text \<open>\<^verbatim>\<open>split\<close> returns at least one piece, so the first line exists.\<close>

lemma splitLines_not_Nil: "splitLines s \<noteq> []"
  by (induction s) (auto split: list.split)

lemma hyphen_not_space: "\<not> isWhiteSpace 0x2D"
  by (simp add: isWhiteSpace_def)

lemma replaceSpaces_no_space: "list_all (\<lambda>c. \<not> isWhiteSpace c) (replaceSpaces s)"
  by (induction s rule: replaceSpaces.induct) (auto simp: hyphen_not_space)

lemma collapseHyphens_set: "set (collapseHyphens s) \<subseteq> set s"
proof (induction s rule: collapseHyphens.induct)
  case 1
  then show ?case by simp
next
  case (2 c cs)
  have "set (dropWhile (\<lambda>d. d = 0x2D) cs) \<subseteq> set cs"
    by (auto dest: set_dropWhileD)
  with 2 show ?case by auto
qed

lemma collapseHyphens_hd: "collapseHyphens s = c # r \<Longrightarrow> \<exists>r'. s = c # r'"
  by (cases s) (auto split: if_splits)

lemma dropWhile_hyphen_hd: "dropWhile (\<lambda>d. d = (0x2D::jschar)) cs = c # r \<Longrightarrow> c \<noteq> 0x2D"
  using hd_dropWhile [of "\<lambda>d. d = (0x2D::jschar)" cs] by auto

lemma noHyphenRun_Cons:
  "noHyphenRun (a # s) = ((s = [] \<or> \<not> (a = 0x2D \<and> hd s = 0x2D)) \<and> noHyphenRun s)"
  by (cases s) auto

lemma collapseHyphens_noRun: "noHyphenRun (collapseHyphens s)"
proof (induction s rule: collapseHyphens.induct)
  case 1
  then show ?case by simp
next
  case (2 c cs)
  show ?case
  proof (cases "c = 0x2D")
    case True
    let ?r = "collapseHyphens (dropWhile (\<lambda>d. d = 0x2D) cs)"
    have "?r = [] \<or> hd ?r \<noteq> 0x2D"
    proof (cases ?r)
      case Nil
      then show ?thesis by simp
    next
      case (Cons x xs)
      from collapseHyphens_hd [OF Cons] obtain r' where "dropWhile (\<lambda>d. d = 0x2D) cs = x # r'"
        by blast
      from dropWhile_hyphen_hd [OF this] Cons show ?thesis by simp
    qed
    with True 2 show ?thesis by (auto simp: noHyphenRun_Cons)
  next
    case False
    with 2 show ?thesis by (auto simp: noHyphenRun_Cons)
  qed
qed

lemma noHyphenRun_tl: "noHyphenRun s \<Longrightarrow> noHyphenRun (tl s)"
  by (cases s) (auto simp: noHyphenRun_Cons)

lemma noHyphenRun_take: "noHyphenRun s \<Longrightarrow> noHyphenRun (take n s)"
proof (induction s arbitrary: n)
  case Nil
  then show ?case by simp
next
  case (Cons a s)
  show ?case
  proof (cases n)
    case 0
    then show ?thesis by simp
  next
    case (Suc m)
    from Cons.prems have s: "noHyphenRun s" and h: "s = [] \<or> \<not> (a = 0x2D \<and> hd s = 0x2D)"
      by (simp_all add: noHyphenRun_Cons)
    have "take m s = [] \<or> hd (take m s) = hd s"
      by (cases s; cases m) auto
    with h s Cons.IH [of m] Suc show ?thesis
      by (auto simp: noHyphenRun_Cons)
  qed
qed

lemma noHyphenRun_butlast: "noHyphenRun s \<Longrightarrow> noHyphenRun (butlast s)"
  using noHyphenRun_take [of s "length s - 1"] by (simp add: butlast_conv_take)

lemma stripEdgeHyphens_set: "set (stripEdgeHyphens s) \<subseteq> set s"
proof -
  have "set (tl s) \<subseteq> set s" by (cases s) auto
  moreover have "set (butlast t) \<subseteq> set t" for t :: jsstring
    by (auto dest: in_set_butlastD)
  ultimately show ?thesis
    by (auto simp: stripEdgeHyphens_def Let_def dest: in_set_butlastD)
qed

lemma stripEdgeHyphens_noRun: "noHyphenRun s \<Longrightarrow> noHyphenRun (stripEdgeHyphens s)"
  by (simp add: stripEdgeHyphens_def Let_def noHyphenRun_tl noHyphenRun_butlast)

lemma png_suffix: "ascii ''slack-emoji.png'' = ascii ''slack-emoji'' @ ascii ''.png''"
  by (simp add: ascii_def)

lemma default_base:
  "ascii ''slack-emoji'' \<noteq> [] \<and> length (ascii ''slack-emoji'') \<le> 32 \<and>
   list_all keptChar (ascii ''slack-emoji'') \<and>
   list_all (\<lambda>c. \<not> isWhiteSpace c) (ascii ''slack-emoji'') \<and>
   noHyphenRun (ascii ''slack-emoji'')"
  by (simp add: ascii_def keptChar_def isWhiteSpace_def)

text \<open>The base before it is cut to 32 code units.\<close>

lemma list_all_subset: "set t \<subseteq> set s \<Longrightarrow> list_all P s \<Longrightarrow> list_all P t"
  unfolding list_all_iff by (rule ballI) (drule (1) subsetD, erule (1) bspec)

lemma list_all_filter_conj: "list_all Q s \<Longrightarrow> list_all (\<lambda>c. P c \<and> Q c) (filter P s)"
  by (induction s) simp_all

lemma list_all_conj: "list_all (\<lambda>c. P c \<and> Q c) s \<Longrightarrow> list_all P s \<and> list_all Q s"
  by (induction s) simp_all

lemma base_properties:
  "list_all keptChar (stripEdgeHyphens (collapseHyphens (filter keptChar (replaceSpaces f)))) \<and>
   list_all (\<lambda>c. \<not> isWhiteSpace c)
     (stripEdgeHyphens (collapseHyphens (filter keptChar (replaceSpaces f)))) \<and>
   noHyphenRun (stripEdgeHyphens (collapseHyphens (filter keptChar (replaceSpaces f))))"
proof -
  let ?pre = "filter keptChar (replaceSpaces f)"
  let ?P = "\<lambda>c. keptChar c \<and> \<not> isWhiteSpace c"
  have "list_all ?P ?pre"
    by (rule list_all_filter_conj) (rule replaceSpaces_no_space)
  then have "list_all ?P (collapseHyphens ?pre)"
    by (rule list_all_subset [OF collapseHyphens_set])
  then have "list_all ?P (stripEdgeHyphens (collapseHyphens ?pre))"
    by (rule list_all_subset [OF stripEdgeHyphens_set])
  then have "list_all keptChar (stripEdgeHyphens (collapseHyphens ?pre)) \<and>
             list_all (\<lambda>c. \<not> isWhiteSpace c) (stripEdgeHyphens (collapseHyphens ?pre))"
    by (rule list_all_conj)
  moreover have "noHyphenRun (stripEdgeHyphens (collapseHyphens ?pre))"
    by (intro stripEdgeHyphens_noRun collapseHyphens_noRun)
  ultimately show ?thesis by blast
qed

lemma list_all_take: "list_all P s \<Longrightarrow> list_all P (take n s)"
  by (auto simp: list_all_iff dest: in_set_takeD)

text \<open>
  The words behind the pipeline of \<^verbatim>\<open>safeFileNameFromText\<close>. The pieces between the
  hyphens that are not empty stay what they are through the collapse of the hyphen runs
  and the removal of the hyphens at the ends; before that, they are the words of the
  first line; and a string with no two adjacent hyphens and no hyphen at either end is
  its pieces joined by hyphens.
\<close>

text \<open>The word units are the code units of the kept class that are neither white space
  nor the hyphen.\<close>

lemma ascii_not_space: "c \<le> 0x7A \<Longrightarrow> 0x30 \<le> c \<Longrightarrow> \<not> isWhiteSpace (c :: jschar)"
  unfolding isWhiteSpace_def by (auto simp: word_le_nat_alt)

lemma isWordUnit_kept: "isWordUnit c = (keptChar c \<and> \<not> isWhiteSpace c \<and> c \<noteq> 0x2D)"
proof -
  have a: "\<not> isWhiteSpace c" if "0x61 \<le> c \<and> c \<le> 0x7A"
    using that by (intro ascii_not_space) (auto simp: word_le_nat_alt)
  have b: "\<not> isWhiteSpace c" if "0x41 \<le> c \<and> c \<le> 0x5A"
    using that by (intro ascii_not_space) (auto simp: word_le_nat_alt)
  have d: "\<not> isWhiteSpace c" if "0x30 \<le> c \<and> c \<le> 0x39"
    using that by (intro ascii_not_space) (auto simp: word_le_nat_alt)
  have e: "\<not> isWhiteSpace (0x5F :: jschar)"
    by (simp add: isWhiteSpace_def)
  have h: "c \<noteq> 0x2D" if "0x61 \<le> c \<or> 0x41 \<le> c \<or> 0x30 \<le> c \<or> c = 0x5F \<or> 0x00A0 \<le> c"
    using that by (auto simp: word_le_nat_alt)
  show ?thesis
    unfolding isWordUnit_def keptChar_def using a b d e h by blast
qed

lemma splitHyphens_not_Nil: "splitHyphens s \<noteq> []"
  by (induction s) (auto split: list.split)

lemma splitWords_not_Nil: "splitWords s \<noteq> []"
  by (induction s) (auto split: list.split)

lemma keptChar_hyphen: "keptChar 0x2D"
  by (simp add: keptChar_def)

lemma splitWords_dropWhile:
  "filter (\<lambda>w. w \<noteq> []) (splitWords (dropWhile isWhiteSpace cs)) = filter (\<lambda>w. w \<noteq> []) (splitWords cs)"
  by (induction cs) (auto simp: isSeparator_def)

lemma filter_nonempty_tl:
  "filter (\<lambda>w. w \<noteq> []) (w # ws) = filter (\<lambda>w. w \<noteq> []) (w # ws') \<Longrightarrow>
   filter (\<lambda>w. w \<noteq> []) ws = filter (\<lambda>w. w \<noteq> []) ws'"
  by (cases "w = []") auto

lemma words_of_pre:
  "hd (splitHyphens (filter keptChar (replaceSpaces f))) = hd (splitWords f) \<and>
   filter (\<lambda>w. w \<noteq> []) (splitHyphens (filter keptChar (replaceSpaces f))) =
     filter (\<lambda>w. w \<noteq> []) (splitWords f)"
proof (induction f rule: replaceSpaces.induct)
  case 1
  then show ?case by simp
next
  case (2 c cs)
  show ?case
  proof (cases "isWhiteSpace c")
    case True
    with 2 show ?thesis
      by (simp add: keptChar_hyphen isSeparator_def splitWords_dropWhile)
  next
    case ws: False
    with 2 have ih: "hd (splitHyphens (filter keptChar (replaceSpaces cs))) = hd (splitWords cs)"
      "filter (\<lambda>w. w \<noteq> []) (splitHyphens (filter keptChar (replaceSpaces cs))) =
         filter (\<lambda>w. w \<noteq> []) (splitWords cs)"
      by simp_all
    obtain w ws where p: "splitHyphens (filter keptChar (replaceSpaces cs)) = w # ws"
      using splitHyphens_not_Nil by (cases "splitHyphens (filter keptChar (replaceSpaces cs))") auto
    obtain w' ws' where q: "splitWords cs = w' # ws'"
      using splitWords_not_Nil by (cases "splitWords cs") auto
    from ih p q have e: "w = w'" by simp
    have t: "filter (\<lambda>w. w \<noteq> []) ws = filter (\<lambda>w. w \<noteq> []) ws'"
      using ih(2) unfolding p q e by (rule filter_nonempty_tl)
    show ?thesis
    proof (cases "c = 0x2D")
      case True
      with ws ih show ?thesis
        by (simp add: keptChar_hyphen isSeparator_def)
    next
      case nh: False
      show ?thesis
      proof (cases "keptChar c")
        case True
        with ws nh p q e t show ?thesis
          by (simp add: isSeparator_def isWordUnit_kept)
      next
        case False
        with ws nh ih show ?thesis
          by (simp add: isSeparator_def isWordUnit_kept)
      qed
    qed
  qed
qed


lemma splitHyphens_dropWhile:
  "filter (\<lambda>w. w \<noteq> []) (splitHyphens (dropWhile (\<lambda>d. d = 0x2D) cs)) =
   filter (\<lambda>w. w \<noteq> []) (splitHyphens cs)"
  by (induction cs) auto

lemma words_collapse:
  "hd (splitHyphens (collapseHyphens p)) = hd (splitHyphens p) \<and>
   filter (\<lambda>w. w \<noteq> []) (splitHyphens (collapseHyphens p)) = filter (\<lambda>w. w \<noteq> []) (splitHyphens p)"
proof (induction p rule: collapseHyphens.induct)
  case 1
  then show ?case by simp
next
  case (2 c cs)
  show ?case
  proof (cases "c = 0x2D")
    case True
    with 2 show ?thesis
      by (simp add: splitHyphens_dropWhile)
  next
    case nh: False
    with 2 have ih: "hd (splitHyphens (collapseHyphens cs)) = hd (splitHyphens cs)"
      "filter (\<lambda>w. w \<noteq> []) (splitHyphens (collapseHyphens cs)) =
         filter (\<lambda>w. w \<noteq> []) (splitHyphens cs)"
      by simp_all
    obtain w ws where p: "splitHyphens (collapseHyphens cs) = w # ws"
      using splitHyphens_not_Nil by (cases "splitHyphens (collapseHyphens cs)") auto
    obtain w' ws' where q: "splitHyphens cs = w' # ws'"
      using splitHyphens_not_Nil by (cases "splitHyphens cs") auto
    from ih p q have e: "w = w'" by simp
    have t: "filter (\<lambda>w. w \<noteq> []) ws = filter (\<lambda>w. w \<noteq> []) ws'"
      using ih(2) unfolding p q e by (rule filter_nonempty_tl)
    from nh p q e t show ?thesis by simp
  qed
qed

lemma splitHyphens_snoc: "splitHyphens (u @ [0x2D]) = splitHyphens u @ [[]]"
  by (induction u) (auto split: list.split simp: splitHyphens_not_Nil)

lemma snoc_last: "t \<noteq> [] \<Longrightarrow> last t = c \<Longrightarrow> t = butlast t @ [c]"
  by auto

lemma words_strip:
  "filter (\<lambda>w. w \<noteq> []) (splitHyphens (stripEdgeHyphens s)) = filter (\<lambda>w. w \<noteq> []) (splitHyphens s)"
proof -
  let ?t = "if s \<noteq> [] \<and> hd s = 0x2D then tl s else s"
  have a: "filter (\<lambda>w. w \<noteq> []) (splitHyphens ?t) = filter (\<lambda>w. w \<noteq> []) (splitHyphens s)"
    by (cases s) auto
  have b: "filter (\<lambda>w. w \<noteq> []) (splitHyphens (if t \<noteq> [] \<and> last t = 0x2D then butlast t else t)) =
           filter (\<lambda>w. w \<noteq> []) (splitHyphens t)" for t :: jsstring
  proof (cases "t \<noteq> [] \<and> last t = 0x2D")
    case True
    then have "t = butlast t @ [0x2D]" by (intro snoc_last) simp_all
    then have "splitHyphens t = splitHyphens (butlast t) @ [[]]"
      using splitHyphens_snoc [of "butlast t"] by simp
    with True show ?thesis by simp
  next
    case False
    then show ?thesis by auto
  qed
  show ?thesis
    unfolding stripEdgeHyphens_def Let_def using a b [of ?t] by simp
qed

lemma noHyphenRun_snoc: "noHyphenRun (u @ [0x2D]) \<Longrightarrow> u \<noteq> [] \<Longrightarrow> last u \<noteq> 0x2D"
  by (induction u) (auto simp: noHyphenRun_Cons split: if_splits)

lemma strip_edges:
  assumes "noHyphenRun s"
  shows "stripEdgeHyphens s = [] \<or>
         (hd (stripEdgeHyphens s) \<noteq> 0x2D \<and> last (stripEdgeHyphens s) \<noteq> 0x2D)"
proof -
  let ?t = "if s \<noteq> [] \<and> hd s = 0x2D then tl s else s"
  have nt: "noHyphenRun ?t"
    using assms by (simp add: noHyphenRun_tl)
  have ht: "?t = [] \<or> hd ?t \<noteq> 0x2D"
    using assms by (cases s) (auto simp: noHyphenRun_Cons)
  have r: "stripEdgeHyphens s = (if ?t \<noteq> [] \<and> last ?t = 0x2D then butlast ?t else ?t)"
    by (simp add: stripEdgeHyphens_def Let_def)
  show ?thesis
  proof (cases "?t \<noteq> [] \<and> last ?t = 0x2D")
    case False
    with r ht show ?thesis by auto
  next
    case True
    then have e: "?t = butlast ?t @ [0x2D]" by (intro snoc_last) blast+
    from True r have rb: "stripEdgeHyphens s = butlast ?t" by simp
    show ?thesis
    proof (cases "butlast ?t = []")
      case True
      with rb show ?thesis by simp
    next
      case nb: False
      from nt e have "noHyphenRun (butlast ?t @ [0x2D])" by simp
      from noHyphenRun_snoc [OF this nb] have l: "last (butlast ?t) \<noteq> 0x2D" .
      from nb have "hd (butlast ?t) = hd ?t"
        by (cases ?t) (auto split: if_splits)
      with ht True have "hd (butlast ?t) \<noteq> 0x2D" by auto
      with l rb show ?thesis by simp
    qed
  qed
qed

lemma joinHyphen_Cons: "joinHyphen ((c # w) # X) = c # joinHyphen (w # X)"
  by (cases X) auto

lemma joinHyphen_single: "Y \<noteq> [] \<Longrightarrow> joinHyphen ([c] # Y) = c # 0x2D # joinHyphen Y"
  by (cases Y) auto

lemma splitHyphens_hd: "r \<noteq> [] \<Longrightarrow> hd r \<noteq> 0x2D \<Longrightarrow> hd (splitHyphens r) \<noteq> []"
  by (cases r) (auto split: list.split)

lemma join_pieces:
  "noHyphenRun r \<Longrightarrow> r = [] \<or> last r \<noteq> 0x2D \<Longrightarrow>
   joinHyphen (filter (\<lambda>w. w \<noteq> []) (splitHyphens r)) = (if r \<noteq> [] \<and> hd r = 0x2D then tl r else r)"
proof (induction r)
  case Nil
  then show ?case by simp
next
  case (Cons c r)
  show ?case
  proof (cases "r = []")
    case True
    with Cons.prems show ?thesis by simp
  next
    case ne: False
    from Cons.prems ne have nr: "noHyphenRun r" and adj: "\<not> (c = 0x2D \<and> hd r = 0x2D)"
      and lr: "last r \<noteq> 0x2D"
      by (simp_all add: noHyphenRun_Cons)
    from Cons.IH [OF nr] lr ne
    have ih: "joinHyphen (filter (\<lambda>w. w \<noteq> []) (splitHyphens r)) = (if hd r = 0x2D then tl r else r)"
      by simp
    show ?thesis
    proof (cases "c = 0x2D")
      case True
      with adj ih show ?thesis by simp
    next
      case nc: False
      obtain w ws where p: "splitHyphens r = w # ws"
        using splitHyphens_not_Nil by (cases "splitHyphens r") auto
      show ?thesis
      proof (cases "hd r = 0x2D")
        case True
        with ne obtain r' where r': "r = 0x2D # r'" by (cases r) auto
        with p have w: "w = []" by auto
        from ih True r' have j: "joinHyphen (filter (\<lambda>w. w \<noteq> []) (splitHyphens r)) = r'" by simp
        have "filter (\<lambda>w. w \<noteq> []) (splitHyphens r) \<noteq> []"
        proof
          assume "filter (\<lambda>w. w \<noteq> []) (splitHyphens r) = []"
          with j have "r' = []" by simp
          with r' lr show False by simp
        qed
        with p w have n: "filter (\<lambda>w. w \<noteq> []) ws \<noteq> []" by simp
        from j p w have j': "joinHyphen (filter (\<lambda>w. w \<noteq> []) ws) = r'" by simp
        from nc p w have f: "filter (\<lambda>w. w \<noteq> []) (splitHyphens (c # r)) = [c] # filter (\<lambda>w. w \<noteq> []) ws"
          by simp
        have "joinHyphen (filter (\<lambda>w. w \<noteq> []) (splitHyphens (c # r))) =
              joinHyphen ([c] # filter (\<lambda>w. w \<noteq> []) ws)"
          by (simp only: f)
        also have "\<dots> = c # 0x2D # joinHyphen (filter (\<lambda>w. w \<noteq> []) ws)"
          by (rule joinHyphen_single [OF n])
        also have "\<dots> = c # r"
          by (simp add: j' r')
        finally show ?thesis using nc by simp
      next
        case False
        from splitHyphens_hd [OF ne False] p have w: "w \<noteq> []" by simp
        from ih False p w have j: "joinHyphen (w # filter (\<lambda>w. w \<noteq> []) ws) = r" by simp
        from nc p have f: "filter (\<lambda>w. w \<noteq> []) (splitHyphens (c # r)) = (c # w) # filter (\<lambda>w. w \<noteq> []) ws"
          by simp
        have "joinHyphen (filter (\<lambda>w. w \<noteq> []) (splitHyphens (c # r))) =
              joinHyphen ((c # w) # filter (\<lambda>w. w \<noteq> []) ws)"
          by (simp only: f)
        also have "\<dots> = c # joinHyphen (w # filter (\<lambda>w. w \<noteq> []) ws)"
          by (rule joinHyphen_Cons)
        also have "\<dots> = c # r"
          by (simp only: j)
        finally show ?thesis using nc by simp
      qed
    qed
  qed
qed

lemma base_words:
  "stripEdgeHyphens (collapseHyphens (filter keptChar (replaceSpaces f))) = joinHyphen (fileWords f)"
proof -
  let ?pre = "filter keptChar (replaceSpaces f)"
  let ?b = "stripEdgeHyphens (collapseHyphens ?pre)"
  have nr: "noHyphenRun ?b"
    by (intro stripEdgeHyphens_noRun collapseHyphens_noRun)
  have edge: "?b = [] \<or> (hd ?b \<noteq> 0x2D \<and> last ?b \<noteq> 0x2D)"
    by (rule strip_edges) (rule collapseHyphens_noRun)
  then have l: "?b = [] \<or> last ?b \<noteq> 0x2D" by blast
  from join_pieces [OF nr l] edge
  have "joinHyphen (filter (\<lambda>w. w \<noteq> []) (splitHyphens ?b)) = ?b" by auto
  moreover have "filter (\<lambda>w. w \<noteq> []) (splitHyphens ?b) = fileWords f"
    unfolding fileWords_def
    using words_strip [of "collapseHyphens ?pre"] words_collapse [of ?pre] words_of_pre [of f]
    by simp
  ultimately show ?thesis by simp
qed

lemma fileName_words: "safeFileNameFromText t = fileNameFromWords t"
proof (cases "firstLine t = []")
  case True
  then show ?thesis
    by (simp add: safeFileNameFromText_def fileNameFromWords_def fileWords_def png_suffix)
next
  case False
  then show ?thesis
    by (simp add: safeFileNameFromText_def fileNameFromWords_def Let_def base_words)
qed


lemma concat_splitWords: "concat (splitWords s) = filter isWordUnit s"
  by (induction s) (auto simp: isSeparator_def isWordUnit_kept splitWords_not_Nil split: list.split)

lemma concat_nonempty: "concat (filter (\<lambda>w. w \<noteq> []) xs) = concat xs"
  by (induction xs) auto

lemma fileWords_units: "concat (fileWords s) = filter isWordUnit s"
  by (simp add: fileWords_def concat_nonempty concat_splitWords)

text \<open>
  C3, as amended. The export file name is a base followed by \<^verbatim>\<open>.png\<close>. The base is
  made of the first line of the text, trimmed: white space and hyphens separate its
  words, every other code unit that is not a word unit (an ASCII letter or digit, the
  underscore, or a code unit from U+00A0 on, alphanumeric or not, that is not white
  space) is deleted, the words that are not empty are joined by single hyphens, and the
  result is cut to its first 32 code units; the words hold the word units of the line,
  all of them and in their order. When nothing is left, the name is
  \<^verbatim>\<open>slack-emoji.png\<close>. So the base is never empty and has at most 32 code units; it
  holds only code units of the kept class (the ASCII letters and digits, the hyphen, the
  underscore, the code units from U+00A0 on), no white space, and no two adjacent
  hyphens. The text \<^verbatim>\<open>Hi\<close> gives \<^verbatim>\<open>Hi.png\<close>, and \<^verbatim>\<open>a b\<close> gives \<^verbatim>\<open>a-b.png\<close>.
\<close>

theorem safeFileName_shape:
  "safeFileNameFromText t = fileNameFromWords t \<and>
   concat (fileWords (firstLine t)) = filter isWordUnit (firstLine t) \<and>
   (\<exists>base. safeFileNameFromText t = base @ ascii ''.png'' \<and> base \<noteq> [] \<and> length base \<le> 32 \<and>
      list_all keptChar base \<and> list_all (\<lambda>c. \<not> isWhiteSpace c) base \<and> noHyphenRun base) \<and>
   safeFileNameFromText (ascii ''Hi'') = ascii ''Hi.png'' \<and>
   safeFileNameFromText (ascii ''a b'') = ascii ''a-b.png''"
proof (intro conjI)
  show "safeFileNameFromText t = fileNameFromWords t"
    by (rule fileName_words)
  show "concat (fileWords (firstLine t)) = filter isWordUnit (firstLine t)"
    by (rule fileWords_units)
  let ?f = "firstLine t"
  let ?b = "stripEdgeHyphens (collapseHyphens (filter keptChar (replaceSpaces ?f)))"
  show "\<exists>base. safeFileNameFromText t = base @ ascii ''.png'' \<and> base \<noteq> [] \<and> length base \<le> 32 \<and>
      list_all keptChar base \<and> list_all (\<lambda>c. \<not> isWhiteSpace c) base \<and> noHyphenRun base"
  proof (cases "?f = [] \<or> take 32 ?b = []")
    case True
    then have "safeFileNameFromText t = ascii ''slack-emoji'' @ ascii ''.png''"
      by (auto simp: safeFileNameFromText_def Let_def png_suffix)
    with default_base show ?thesis by blast
  next
    case False
    then have r: "safeFileNameFromText t = take 32 ?b @ ascii ''.png''"
      by (simp add: safeFileNameFromText_def Let_def)
    from base_properties [of ?f] have "list_all keptChar (take 32 ?b)"
      "list_all (\<lambda>c. \<not> isWhiteSpace c) (take 32 ?b)" "noHyphenRun (take 32 ?b)"
      by (simp_all add: list_all_take noHyphenRun_take)
    with r False show ?thesis by auto
  qed
  show "safeFileNameFromText (ascii ''Hi'') = ascii ''Hi.png''"
    by (simp add: safeFileNameFromText_def firstLine_def keptChar_def stripEdgeHyphens_def js_defs)
  show "safeFileNameFromText (ascii ''a b'') = ascii ''a-b.png''"
    by (simp add: safeFileNameFromText_def firstLine_def keptChar_def stripEdgeHyphens_def js_defs)
qed

theorem safeFileName_shape_witness:
  "firstLine spacedText = ascii ''a'' @ [0x09, 0x20] @ ascii ''b!c--d_'' \<and>
   fileWords (firstLine spacedText) = [ascii ''a'', ascii ''bc'', ascii ''d_''] \<and>
   safeFileNameFromText spacedText = ascii ''a-bc-d_.png'' \<and>
   fileWords (firstLine longText) =
     [ascii ''abcdefghij'', ascii ''abcdefghij'', ascii ''abcdefghijk'', ascii ''lmn''] \<and>
   safeFileNameFromText longText = ascii ''abcdefghij-abcdefghij-abcdefghij.png''"
proof -
  have f: "firstLine spacedText = ascii ''a'' @ [0x09, 0x20] @ ascii ''b!c--d_''"
    by (simp add: spacedText_def firstLine_def js_defs)
  have w: "fileWords (firstLine spacedText) = [ascii ''a'', ascii ''bc'', ascii ''d_'']"
    unfolding f by (simp add: fileWords_def isSeparator_def isWordUnit_def keptChar_def js_defs)
  have g: "firstLine longText = longText"
    by (simp add: longText_def firstLine_def js_defs)
  have v: "fileWords (firstLine longText) =
     [ascii ''abcdefghij'', ascii ''abcdefghij'', ascii ''abcdefghijk'', ascii ''lmn'']"
    unfolding g by (simp add: longText_def fileWords_def isSeparator_def isWordUnit_def keptChar_def js_defs)
  from safeFileName_shape [of spacedText]
  have "safeFileNameFromText spacedText = fileNameFromWords spacedText"
    by blast
  then have a: "safeFileNameFromText spacedText = ascii ''a-bc-d_.png''"
    by (simp add: fileNameFromWords_def w ascii_def)
  from safeFileName_shape [of longText]
  have "safeFileNameFromText longText = fileNameFromWords longText"
    by blast
  then have b: "safeFileNameFromText longText = ascii ''abcdefghij-abcdefghij-abcdefghij.png''"
    by (simp add: fileNameFromWords_def v ascii_def)
  from f w a v b show ?thesis by (intro conjI)
qed

text \<open>
  The claim C3 as it is stated fails. The first line of the default text ends in U+FF01,
  a fullwidth exclamation mark, which is not alphanumeric and is kept; and in
  \<^verbatim>\<open>a--b\<close>, where the claim has nothing to strip, collapse or cut, the two hyphens
  become one.
\<close>

theorem safeFileName_counterexample:
  "safeFileNameFromText (text' DEFAULT_STATE) = [0x65E9, 0x5B89, 0xFF01] @ ascii ''.png'' \<and>
   safeFileNameFromText (ascii ''a--b'') = ascii ''a-b.png''"
  by (simp add: safeFileNameFromText_def firstLine_def DEFAULT_STATE_def keptChar_def
      stripEdgeHyphens_def js_defs)

end
